theory Spec2Isabelle
  imports Main
begin

section \<open>Event records and the JSON codec\<close>

text \<open>
  Metadata is an \<open>interface{}\<close> holding JSON-compatible data. The model keeps its JSON
  image; the nil interface is \<open>None\<close>. Timestamps and organisation ids are \<open>int64\<close>;
  the stores only compare them, so they are modelled as \<open>int\<close>.
\<close>

datatype json =
    JNull
  | JBool bool
  | JNum int
  | JStr string
  | JArr "json list"
  | JObj "(string \<times> json) list"

record AuditEvent =
  Username :: string
  ActionString :: string
  ExtraMsg :: string
  EpochTimestampSec :: int
  OrgID :: int
  Metadata :: "json option"

text \<open>
  \<open>encoding/json\<close> belongs to the Go standard library, not to this repository, so the
  four uses the stores make of it are parameters: \<open>json.Marshal(event)\<close>,
  \<open>json.Unmarshal(line, &event)\<close>, \<open>json.Marshal(metadata)\<close> and
  \<open>json.Unmarshal(text, &metadata)\<close>. \<open>None\<close> is a returned error. Decoding into an
  \<open>interface{}\<close> may succeed with nil (the text \<open>null\<close>), hence the inner option.
\<close>

record json_codec =
  marshal_event :: "AuditEvent \<Rightarrow> string option"
  unmarshal_event :: "string \<Rightarrow> AuditEvent option"
  marshal_value :: "json \<Rightarrow> string option"
  unmarshal_value :: "string \<Rightarrow> json option option"

datatype error =
    NotInitialized
  | FilePathNotProvided
  | DBPathNotProvided
  | UnsupportedLoggerType string
  | CreateFileFailed
  | MarshalEventFailed
  | OpenFileFailed
  | MarshalMetadataFailed
  | CreateTableFailed
  | InsertFailed
  | QueryFailed
  | NilPointerPanic

section \<open>The file system seen by the file backend\<close>

text \<open>
  A path names a regular file with its bytes, or nothing (and then creating it is
  possible or not), or something \<open>os.Stat\<close> fails on for a reason other than absence
  (a parent directory without search permission, say). \<open>os.Open\<close> gives the bytes of
  a file, \<open>os.OpenFile\<close> for appending gives a handle, here the path; a write to an
  open file always succeeds in this model, and so does every read.
\<close>

datatype node = File string | Missing bool | Denied

type_synonym filesystem = "string \<Rightarrow> node"

datatype stat_result = StatOK | StatNotExist | StatOtherError

definition os_Stat :: "filesystem \<Rightarrow> string \<Rightarrow> stat_result" where
  "os_Stat fs p = (case fs p of File _ \<Rightarrow> StatOK | Missing _ \<Rightarrow> StatNotExist | Denied \<Rightarrow> StatOtherError)"

definition os_Create :: "filesystem \<Rightarrow> string \<Rightarrow> filesystem option" where
  "os_Create fs p =
     (case fs p of
        File _ \<Rightarrow> Some (fs(p := File []))
      | Missing creatable \<Rightarrow> (if creatable then Some (fs(p := File [])) else None)
      | Denied \<Rightarrow> None)"

definition os_Open :: "filesystem \<Rightarrow> string \<Rightarrow> string option" where
  "os_Open fs p = (case fs p of File bytes \<Rightarrow> Some bytes | _ \<Rightarrow> None)"

definition os_OpenFile :: "filesystem \<Rightarrow> string \<Rightarrow> string option" where
  "os_OpenFile fs p = (case fs p of File _ \<Rightarrow> Some p | _ \<Rightarrow> None)"

definition file_Write :: "filesystem \<Rightarrow> string \<Rightarrow> string \<Rightarrow> filesystem" where
  "file_Write fs p bytes = (case fs p of File old \<Rightarrow> fs(p := File (old @ bytes)) | _ \<Rightarrow> fs)"

section \<open>The file backend\<close>

record FileAuditLogger =
  filePath :: string

definition NewFileAuditLogger ::
  "string \<Rightarrow> filesystem \<Rightarrow> (FileAuditLogger option \<times> error option) \<times> filesystem" where
  "NewFileAuditLogger path fs =
     (if os_Stat fs path = StatNotExist then
        (case os_Create fs path of
           None \<Rightarrow> ((None, Some CreateFileFailed), fs)
         | Some fs' \<Rightarrow> ((Some \<lparr>filePath = path\<rparr>, None), fs'))
      else ((Some \<lparr>filePath = path\<rparr>, None), fs))"

definition File_CreateAuditEvent ::
  "json_codec \<Rightarrow> int \<Rightarrow> FileAuditLogger \<Rightarrow> string \<Rightarrow> string \<Rightarrow> string \<Rightarrow> int \<Rightarrow> int \<Rightarrow>
   json option \<Rightarrow> filesystem \<Rightarrow> error option \<times> filesystem" where
  "File_CreateAuditEvent c now l username actionString extraMsg epochTimestampSec orgID metadata fs =
     (let ts = (if epochTimestampSec = 0 then now else epochTimestampSec);
          event = \<lparr>Username = username, ActionString = actionString, ExtraMsg = extraMsg,
                   EpochTimestampSec = ts, OrgID = orgID, Metadata = metadata\<rparr>
      in case marshal_event c event of
           None \<Rightarrow> (Some MarshalEventFailed, fs)
         | Some eventJSON \<Rightarrow>
             (case os_OpenFile fs (filePath l) of
                None \<Rightarrow> (Some OpenFileFailed, fs)
              | Some file \<Rightarrow> (None, file_Write fs file (eventJSON @ [CHR 0x0A]))))"

text \<open>
  \<open>JSONScanner.Scan\<close> reads one byte at a time: \<open>Scan_loop line unread\<close> is its loop,
  with the line collected so far and the bytes not yet read. It returns the line and
  the bytes that remain, or \<open>None\<close> where the source returns false.
\<close>

fun Scan_loop :: "string \<Rightarrow> string \<Rightarrow> (string \<times> string) option" where
  "Scan_loop line [] = (if 0 < length line then Some (line, []) else None)"
| "Scan_loop line (b # unread) =
     (if b = CHR 0x0A then Some (line, unread) else Scan_loop (line @ [b]) unread)"

definition Scan :: "string \<Rightarrow> (string \<times> string) option" where
  "Scan unread = Scan_loop [] unread"

function read_loop ::
  "json_codec \<Rightarrow> int \<Rightarrow> int \<Rightarrow> int \<Rightarrow> string \<Rightarrow> AuditEvent list \<Rightarrow> AuditEvent list" where
  "read_loop c orgID startEpochSec endEpochSec unread events =
     (case Scan unread of
        None \<Rightarrow> events
      | Some (current, rest) \<Rightarrow>
          (case unmarshal_event c current of
             None \<Rightarrow> read_loop c orgID startEpochSec endEpochSec rest events
           | Some event \<Rightarrow>
               if OrgID event = orgID \<and> startEpochSec \<le> EpochTimestampSec event \<and>
                  (endEpochSec = 0 \<or> EpochTimestampSec event \<le> endEpochSec)
               then read_loop c orgID startEpochSec endEpochSec rest (events @ [event])
               else read_loop c orgID startEpochSec endEpochSec rest events))"
  by pat_completeness auto

termination
proof -
  have loop_shorter: "length rest < length unread"
    if "Scan_loop line unread = Some (cur, rest)" and "unread \<noteq> []"
    for line unread cur rest
    using that
  proof (induction unread arbitrary: line)
    case Nil
    then show ?case by simp
  next
    case (Cons b unread)
    show ?case
    proof (cases "b = CHR 0x0A")
      case True
      with Cons.prems show ?thesis by simp
    next
      case False
      with Cons.prems have step: "Scan_loop (line @ [b]) unread = Some (cur, rest)" by simp
      show ?thesis
      proof (cases unread)
        case Nil
        with step show ?thesis by (simp split: if_splits)
      next
        case (Cons b' unread')
        with step Cons.IH [of "line @ [b]"] show ?thesis by simp
      qed
    qed
  qed
  have shorter: "length rest < length unread" if "Scan unread = Some (cur, rest)"
    for unread cur rest
    using that loop_shorter [of "[]" unread cur rest] by (cases unread) (auto simp: Scan_def)
  show ?thesis
    by (relation "measure (\<lambda>(c, orgID, s, e, unread, events). length unread)")
       (auto dest: shorter)
qed

definition File_ReadAuditEvents ::
  "json_codec \<Rightarrow> FileAuditLogger \<Rightarrow> int \<Rightarrow> int \<Rightarrow> int \<Rightarrow> filesystem \<Rightarrow> error + AuditEvent list" where
  "File_ReadAuditEvents c l orgID startEpochSec endEpochSec fs =
     (case os_Open fs (filePath l) of
        None \<Rightarrow> Inl OpenFileFailed
      | Some bytes \<Rightarrow> Inr (read_loop c orgID startEpochSec endEpochSec bytes []))"

section \<open>The relational backend\<close>

text \<open>
  A row of the table \<open>audit_events\<close>, without its auto-assigned id: the table is the
  list of its rows in the order of their ids, which is the order of insertion. The
  \<open>metadata\<close> column may hold NULL.
\<close>

record audit_row =
  col_username :: string
  col_action_string :: string
  col_extra_msg :: string
  col_epoch_timestamp_sec :: int
  col_org_id :: int
  col_metadata :: "string option"

text \<open>
  A database path names a database that cannot be opened, one that has no table
  \<open>audit_events\<close> yet, or one with the table.
\<close>

datatype database = Unavailable | NoTable | Table "audit_row list"

type_synonym databases = "string \<Rightarrow> database"

record DBAuditLogger =
  db :: string

definition NewDBAuditLogger ::
  "string \<Rightarrow> databases \<Rightarrow> (DBAuditLogger option \<times> error option) \<times> databases" where
  "NewDBAuditLogger dbPath dbs =
     (case dbs dbPath of
        Unavailable \<Rightarrow> ((None, Some CreateTableFailed), dbs)
      | NoTable \<Rightarrow> ((Some \<lparr>db = dbPath\<rparr>, None), dbs(dbPath := Table []))
      | Table _ \<Rightarrow> ((Some \<lparr>db = dbPath\<rparr>, None), dbs))"

definition DB_CreateAuditEvent ::
  "json_codec \<Rightarrow> int \<Rightarrow> DBAuditLogger \<Rightarrow> string \<Rightarrow> string \<Rightarrow> string \<Rightarrow> int \<Rightarrow> int \<Rightarrow>
   json option \<Rightarrow> databases \<Rightarrow> error option \<times> databases" where
  "DB_CreateAuditEvent c now l username actionString extraMsg epochTimestampSec orgID metadata dbs =
     (let ts = (if epochTimestampSec = 0 then now else epochTimestampSec)
      in case (case metadata of None \<Rightarrow> Some [] | Some m \<Rightarrow> marshal_value c m) of
           None \<Rightarrow> (Some MarshalMetadataFailed, dbs)
         | Some metadataJSON \<Rightarrow>
             (case dbs (db l) of
                Table rows \<Rightarrow>
                  (None, dbs(db l := Table (rows @
                     [\<lparr>col_username = username, col_action_string = actionString,
                       col_extra_msg = extraMsg, col_epoch_timestamp_sec = ts,
                       col_org_id = orgID, col_metadata = Some metadataJSON\<rparr>])))
              | _ \<Rightarrow> (Some InsertFailed, dbs)))"

text \<open>
  The WHERE clause as the source assembles it: the upper bound is appended to the query
  only when \<open>endEpochSec > 0\<close>.
\<close>

definition where_clause :: "int \<Rightarrow> int \<Rightarrow> int \<Rightarrow> audit_row \<Rightarrow> bool" where
  "where_clause orgID startEpochSec endEpochSec r =
     (col_org_id r = orgID \<and> startEpochSec \<le> col_epoch_timestamp_sec r \<and>
      (if 0 < endEpochSec then col_epoch_timestamp_sec r \<le> endEpochSec else True))"

text \<open>
  \<open>ORDER BY epoch_timestamp_sec ASC\<close> is a stable sort of the selected rows: rows with
  equal timestamps stay in the order of their ids, as SQLite returns them from the index
  \<open>idx_org_time\<close>.
\<close>

definition run_query :: "int \<Rightarrow> int \<Rightarrow> int \<Rightarrow> audit_row list \<Rightarrow> audit_row list" where
  "run_query orgID startEpochSec endEpochSec rows =
     sort_key col_epoch_timestamp_sec (filter (where_clause orgID startEpochSec endEpochSec) rows)"

definition scan_row :: "json_codec \<Rightarrow> audit_row \<Rightarrow> AuditEvent" where
  "scan_row c r =
     \<lparr>Username = col_username r, ActionString = col_action_string r,
      ExtraMsg = col_extra_msg r, EpochTimestampSec = col_epoch_timestamp_sec r,
      OrgID = col_org_id r,
      Metadata =
        (case col_metadata r of
           None \<Rightarrow> None
         | Some metadataStr \<Rightarrow>
             if metadataStr \<noteq> [] then
               (case unmarshal_value c metadataStr of None \<Rightarrow> None | Some metadata \<Rightarrow> metadata)
             else None)\<rparr>"

definition DB_ReadAuditEvents ::
  "json_codec \<Rightarrow> DBAuditLogger \<Rightarrow> int \<Rightarrow> int \<Rightarrow> int \<Rightarrow> databases \<Rightarrow> error + AuditEvent list" where
  "DB_ReadAuditEvents c l orgID startEpochSec endEpochSec dbs =
     (case dbs (db l) of
        Table rows \<Rightarrow> Inr (map (scan_row c) (run_query orgID startEpochSec endEpochSec rows))
      | _ \<Rightarrow> Inl QueryFailed)"

section \<open>The factory, the registry and the convenience functions\<close>

text \<open>
  A value of the interface type \<open>AuditLogger\<close> that is not nil carries its dynamic type
  and a pointer, and the pointer may itself be nil. The package variable
  \<open>loggerInstance\<close> is an interface value or nil.
\<close>

datatype AuditLogger =
    FilePtr "FileAuditLogger option"
  | DBPtr "DBAuditLogger option"

record world =
  loggerInstance :: "AuditLogger option"
  files :: filesystem
  dbases :: databases

definition FileLoggerType :: string where
  "FileLoggerType = ''file''"

definition DBLoggerType :: string where
  "DBLoggerType = ''db''"

definition InitAuditLogger ::
  "string \<Rightarrow> (string \<rightharpoonup> string) \<Rightarrow> world \<Rightarrow> error option \<times> world" where
  "InitAuditLogger loggerType config w =
     (if loggerType = FileLoggerType then
        (case config ''filePath'' of
           None \<Rightarrow> (Some FilePathNotProvided, w)
         | Some path \<Rightarrow>
             (case NewFileAuditLogger path (files w) of
                ((ptr, err), fs') \<Rightarrow> (err, w\<lparr>loggerInstance := Some (FilePtr ptr), files := fs'\<rparr>)))
      else if loggerType = DBLoggerType then
        (case config ''dbPath'' of
           None \<Rightarrow> (Some DBPathNotProvided, w)
         | Some dbPath \<Rightarrow>
             (case NewDBAuditLogger dbPath (dbases w) of
                ((ptr, err), dbs') \<Rightarrow> (err, w\<lparr>loggerInstance := Some (DBPtr ptr), dbases := dbs'\<rparr>)))
      else (Some (UnsupportedLoggerType loggerType), w))"

definition GetAuditLogger :: "world \<Rightarrow> error + AuditLogger" where
  "GetAuditLogger w = (case loggerInstance w of None \<Rightarrow> Inl NotInitialized | Some logger \<Rightarrow> Inr logger)"

text \<open>
  A method call through the interface runs the method of the dynamic type. Both
  backends read a field of their receiver first, which panics on a nil pointer: the
  panic is the result \<open>NilPointerPanic\<close>, and the world stays as it was.
\<close>

definition CreateAuditEvent ::
  "json_codec \<Rightarrow> int \<Rightarrow> string \<Rightarrow> string \<Rightarrow> string \<Rightarrow> int \<Rightarrow> int \<Rightarrow> json option \<Rightarrow>
   world \<Rightarrow> error option \<times> world" where
  "CreateAuditEvent c now username actionString extraMsg epochTimestampSec orgID metadata w =
     (case GetAuditLogger w of
        Inl err \<Rightarrow> (Some err, w)
      | Inr (FilePtr None) \<Rightarrow> (Some NilPointerPanic, w)
      | Inr (FilePtr (Some l)) \<Rightarrow>
          (case File_CreateAuditEvent c now l username actionString extraMsg epochTimestampSec
                  orgID metadata (files w) of
             (err, fs') \<Rightarrow> (err, w\<lparr>files := fs'\<rparr>))
      | Inr (DBPtr None) \<Rightarrow> (Some NilPointerPanic, w)
      | Inr (DBPtr (Some l)) \<Rightarrow>
          (case DB_CreateAuditEvent c now l username actionString extraMsg epochTimestampSec
                  orgID metadata (dbases w) of
             (err, dbs') \<Rightarrow> (err, w\<lparr>dbases := dbs'\<rparr>)))"

definition ReadAuditEvents ::
  "json_codec \<Rightarrow> int \<Rightarrow> int \<Rightarrow> int \<Rightarrow> world \<Rightarrow> error + AuditEvent list" where
  "ReadAuditEvents c orgID startEpochSec endEpochSec w =
     (case GetAuditLogger w of
        Inl err \<Rightarrow> Inl err
      | Inr (FilePtr None) \<Rightarrow> Inl NilPointerPanic
      | Inr (FilePtr (Some l)) \<Rightarrow> File_ReadAuditEvents c l orgID startEpochSec endEpochSec (files w)
      | Inr (DBPtr None) \<Rightarrow> Inl NilPointerPanic
      | Inr (DBPtr (Some l)) \<Rightarrow> DB_ReadAuditEvents c l orgID startEpochSec endEpochSec (dbases w))"

section \<open>The HTTP middleware\<close>

text \<open>
  A request context maps keys of type \<open>ContextKey\<close> to values of any dynamic type; the
  type assertions of the source tell a string and an \<open>int64\<close> from everything else.
\<close>

datatype ctx_value = StringValue string | Int64Value int | OtherValue

type_synonym request_context = "string \<rightharpoonup> ctx_value"

definition AuditUserKey :: string where
  "AuditUserKey = ''audit_username''"

definition AuditOrgIDKey :: string where
  "AuditOrgIDKey = ''audit_org_id''"

record request =
  Method :: string
  URLPath :: string
  RequestURI :: string
  UserAgent :: string
  RemoteAddr :: string
  Ctx :: request_context

definition WithAuditContext :: "request \<Rightarrow> string \<Rightarrow> int \<Rightarrow> request" where
  "WithAuditContext r username orgID =
     r\<lparr>Ctx := (Ctx r)(AuditUserKey \<mapsto> StringValue username, AuditOrgIDKey \<mapsto> Int64Value orgID)\<rparr>"

definition getUsernameFromContext :: "request_context \<Rightarrow> string" where
  "getUsernameFromContext ctx =
     (case ctx AuditUserKey of Some (StringValue username) \<Rightarrow> username | _ \<Rightarrow> ''unknown'')"

definition getOrgIDFromContext :: "request_context \<Rightarrow> int" where
  "getOrgIDFromContext ctx =
     (case ctx AuditOrgIDKey of Some (Int64Value orgID) \<Rightarrow> orgID | _ \<Rightarrow> 0)"

text \<open>The pieces of Go's \<open>strings\<close> package that the pattern matching uses.\<close>

fun Split_loop :: "char \<Rightarrow> string \<Rightarrow> string \<Rightarrow> string list" where
  "Split_loop sep cur [] = [cur]"
| "Split_loop sep cur (x # xs) =
     (if x = sep then cur # Split_loop sep [] xs else Split_loop sep (cur @ [x]) xs)"

definition Split :: "string \<Rightarrow> char \<Rightarrow> string list" where
  "Split s sep = Split_loop sep [] s"

definition HasPrefix :: "string \<Rightarrow> string \<Rightarrow> bool" where
  "HasPrefix s pre = (length pre \<le> length s \<and> take (length pre) s = pre)"

definition HasSuffix :: "string \<Rightarrow> string \<Rightarrow> bool" where
  "HasSuffix s suf = (length suf \<le> length s \<and> drop (length s - length suf) s = suf)"

definition TrimSuffix :: "string \<Rightarrow> string \<Rightarrow> string" where
  "TrimSuffix s suf = (if HasSuffix s suf then take (length s - length suf) s else s)"

text \<open>
  The loop over \<open>actionMapping\<close>. A Go map is visited in an order the language leaves
  open, so the entries come as the list of (pattern, action) pairs in the order of the
  visit. The result is \<open>actionString\<close> after the loop, empty when nothing matched.
\<close>

fun find_action :: "(string \<times> string) list \<Rightarrow> string \<Rightarrow> string \<Rightarrow> string" where
  "find_action [] method path = []"
| "find_action ((pattern, action) # rest) method path =
     (let parts = Split pattern CHR '' '' in
      if length parts \<noteq> 2 then find_action rest method path
      else
        let methodPattern = parts ! 0; pathPattern = parts ! 1 in
        if methodPattern \<noteq> ''*'' \<and> methodPattern \<noteq> method then find_action rest method path
        else if HasSuffix pathPattern ''*'' then
          (if HasPrefix path (TrimSuffix pathPattern ''*'') then action
           else find_action rest method path)
        else if pathPattern = path then action
        else find_action rest method path)"

definition action_label :: "(string \<times> string) list \<Rightarrow> string \<Rightarrow> string \<Rightarrow> string" where
  "action_label actionMapping method path =
     (let actionString = find_action actionMapping method path in
      if actionString = [] then method @ '' request to '' @ path else actionString)"

record responseWriter =
  statusCode :: int

definition WriteHeader :: "responseWriter \<Rightarrow> int \<Rightarrow> responseWriter" where
  "WriteHeader rw code = rw\<lparr>statusCode := code\<rparr>"

text \<open>\<open>%d\<close> of \<open>fmt.Sprintf\<close>: an integer in decimal.\<close>

fun decimal :: "nat \<Rightarrow> string" where
  "decimal n = (if n < 10 then [char_of (48 + n)] else decimal (n div 10) @ [char_of (48 + n mod 10)])"

definition fmt_d :: "int \<Rightarrow> string" where
  "fmt_d i = (if i < 0 then CHR ''-'' # decimal (nat (- i)) else decimal (nat i))"

text \<open>
  What the middleware reads from the clock: the duration of the handler (as
  \<open>Duration.String\<close> prints it, and in milliseconds), \<open>time.Now().Unix()\<close> when
  the event is submitted, and the reading the store takes if that one is zero.
\<close>

record clock =
  duration_text :: string
  duration_ms :: int
  event_time :: int
  store_time :: int

text \<open>
  The wrapped handler is a parameter: it returns the status codes it passed to
  \<open>WriteHeader\<close>, in order, and the world it leaves.
\<close>

type_synonym handler = "request \<Rightarrow> world \<Rightarrow> int list \<times> world"

definition audit_metadata :: "request \<Rightarrow> int \<Rightarrow> int \<Rightarrow> json" where
  "audit_metadata r status ms =
     JObj [(''requestURI'', JStr (RequestURI r)), (''userAgent'', JStr (UserAgent r)),
           (''remoteAddr'', JStr (RemoteAddr r)), (''statusCode'', JNum status),
           (''durationMs'', JNum ms)]"

definition AuditMiddleware ::
  "json_codec \<Rightarrow> (string \<times> string) list \<Rightarrow> handler \<Rightarrow> clock \<Rightarrow> request \<Rightarrow> world \<Rightarrow> world" where
  "AuditMiddleware c actionMapping next clk r w =
     (let username = getUsernameFromContext (Ctx r);
          orgID = getOrgIDFromContext (Ctx r);
          actionString = action_label actionMapping (Method r) (URLPath r)
      in case next r w of
           (codes, w1) \<Rightarrow>
             let rw = foldl WriteHeader \<lparr>statusCode = 200\<rparr> codes;
                 extraMsg = ''Status: '' @ fmt_d (statusCode rw) @ '', Duration: '' @ duration_text clk;
                 metadata = audit_metadata r (statusCode rw) (duration_ms clk)
             in snd (CreateAuditEvent c (store_time clk) username actionString extraMsg
                       (event_time clk) orgID (Some metadata) w1))"

section \<open>Notions of the specification\<close>

text \<open>
  The filter as the specification words it: the tenant is equal, the time is at least
  \<open>start\<close>, and \<open>end\<close> is zero or the time is at most \<open>end\<close>.
\<close>

definition spec_matches :: "int \<Rightarrow> int \<Rightarrow> int \<Rightarrow> AuditEvent \<Rightarrow> bool" where
  "spec_matches tenant start end r =
     (OrgID r = tenant \<and> start \<le> EpochTimestampSec r \<and> (end = 0 \<or> EpochTimestampSec r \<le> end))"

text \<open>
  The lines of a file: what \<open>Scan\<close> yields, one call after the other, until it returns
  false. And the file made of lines that each end with the separator.
\<close>

fun lines_from :: "string \<Rightarrow> string \<Rightarrow> string list" where
  "lines_from line [] = (if line = [] then [] else [line])"
| "lines_from line (b # unread) =
     (if b = CHR 0x0A then line # lines_from [] unread else lines_from (line @ [b]) unread)"

definition file_lines :: "string \<Rightarrow> string list" where
  "file_lines bytes = lines_from [] bytes"

definition terminated :: "string list \<Rightarrow> string" where
  "terminated lns = concat (map (\<lambda>ln. ln @ [CHR 0x0A]) lns)"

text \<open>
  The records a file holds are the events of its lines that parse. The filter the
  relational query applies, in the words of the specification of that backend: the
  upper bound counts only when \<open>end\<close> is positive.
\<close>

definition parsed_events :: "json_codec \<Rightarrow> string \<Rightarrow> AuditEvent list" where
  "parsed_events c bytes = List.map_filter (unmarshal_event c) (file_lines bytes)"

definition relational_matches :: "int \<Rightarrow> int \<Rightarrow> int \<Rightarrow> AuditEvent \<Rightarrow> bool" where
  "relational_matches tenant start end r =
     (OrgID r = tenant \<and> start \<le> EpochTimestampSec r \<and> (end \<le> 0 \<or> EpochTimestampSec r \<le> end))"

text \<open>The row that holds an event, given the text of its metadata column.\<close>

definition row_of :: "AuditEvent \<Rightarrow> string \<Rightarrow> audit_row" where
  "row_of ev text =
     \<lparr>col_username = Username ev, col_action_string = ActionString ev, col_extra_msg = ExtraMsg ev,
      col_epoch_timestamp_sec = EpochTimestampSec ev, col_org_id = OrgID ev,
      col_metadata = Some text\<rparr>"

text \<open>An append of each backend with the fields of a record as its arguments.\<close>

definition File_append ::
  "json_codec \<Rightarrow> int \<Rightarrow> FileAuditLogger \<Rightarrow> AuditEvent \<Rightarrow> filesystem \<Rightarrow> error option \<times> filesystem" where
  "File_append c now l r fs =
     File_CreateAuditEvent c now l (Username r) (ActionString r) (ExtraMsg r) (EpochTimestampSec r)
       (OrgID r) (Metadata r) fs"

definition DB_append ::
  "json_codec \<Rightarrow> int \<Rightarrow> DBAuditLogger \<Rightarrow> AuditEvent \<Rightarrow> databases \<Rightarrow> error option \<times> databases" where
  "DB_append c now l r dbs =
     DB_CreateAuditEvent c now l (Username r) (ActionString r) (ExtraMsg r) (EpochTimestampSec r)
       (OrgID r) (Metadata r) dbs"

text \<open>
  What makes a record valid for the codec in use: its line encodes without the
  separator and decodes to the record, and so does its metadata, whose text is not
  empty.
\<close>

definition codec_roundtrips :: "json_codec \<Rightarrow> AuditEvent \<Rightarrow> bool" where
  "codec_roundtrips c r =
     ((case marshal_event c r of
         None \<Rightarrow> False
       | Some eventJSON \<Rightarrow> CHR 0x0A \<notin> set eventJSON \<and> unmarshal_event c eventJSON = Some r) \<and>
      (case Metadata r of
         None \<Rightarrow> True
       | Some m \<Rightarrow>
           (case marshal_value c m of
              None \<Rightarrow> False
            | Some metadataJSON \<Rightarrow>
                metadataJSON \<noteq> [] \<and> unmarshal_value c metadataJSON = Some (Some m))))"

definition returned :: "AuditEvent \<Rightarrow> error + AuditEvent list \<Rightarrow> bool" where
  "returned r result = (case result of Inl err \<Rightarrow> False | Inr events \<Rightarrow> r \<in> set events)"

text \<open>The text the relational backend stores in the metadata column of a record.\<close>

definition metadata_text :: "json_codec \<Rightarrow> AuditEvent \<Rightarrow> string" where
  "metadata_text c r = (case Metadata r of None \<Rightarrow> [] | Some m \<Rightarrow> the (marshal_value c m))"

text \<open>
  A call of \<open>CreateAuditEvent\<close> is the reading the store takes from the clock and the
  record whose fields are the arguments; a sequence of calls runs from left to right,
  whatever each call returns. \<open>stored_as\<close> is the record a call stores.
\<close>

definition stored_as :: "int \<times> AuditEvent \<Rightarrow> AuditEvent" where
  "stored_as call =
     (case call of (now, r) \<Rightarrow>
        r\<lparr>EpochTimestampSec := (if EpochTimestampSec r = 0 then now else EpochTimestampSec r)\<rparr>)"

fun File_appends ::
  "json_codec \<Rightarrow> FileAuditLogger \<Rightarrow> (int \<times> AuditEvent) list \<Rightarrow> filesystem \<Rightarrow> filesystem" where
  "File_appends c l [] fs = fs"
| "File_appends c l ((now, r) # calls) fs = File_appends c l calls (snd (File_append c now l r fs))"

fun DB_appends ::
  "json_codec \<Rightarrow> DBAuditLogger \<Rightarrow> (int \<times> AuditEvent) list \<Rightarrow> databases \<Rightarrow> databases" where
  "DB_appends c l [] dbs = dbs"
| "DB_appends c l ((now, r) # calls) dbs = DB_appends c l calls (snd (DB_append c now l r dbs))"

definition line_of :: "json_codec \<Rightarrow> AuditEvent \<Rightarrow> string" where
  "line_of c r = the (marshal_event c r)"

text \<open>
  When a mapping entry matches a request, in the words of the specification: the
  pattern is a method and a path pattern separated by one space; the method is \<open>*\<close> or
  the method of the request; the path pattern, if it ends with \<open>*\<close>, is matched as a
  prefix without that marker, and otherwise is the path itself.
\<close>

definition entry_matches :: "string \<Rightarrow> string \<Rightarrow> string \<Rightarrow> bool" where
  "entry_matches pattern method path =
     (case Split pattern CHR '' '' of
        [methodPattern, pathPattern] \<Rightarrow>
          (methodPattern = ''*'' \<or> methodPattern = method) \<and>
          (if HasSuffix pathPattern ''*'' then HasPrefix path (TrimSuffix pathPattern ''*'')
           else pathPattern = path)
      | _ \<Rightarrow> False)"

text \<open>
  The context carries no tenant id when the key is absent or its value is not an
  \<open>int64\<close>. The active store is ready when it is a backend (not a nil pointer) whose
  file exists and is empty or ends with the separator, or whose table exists.
\<close>

definition no_tenant :: "request_context \<Rightarrow> bool" where
  "no_tenant ctx = (case ctx AuditOrgIDKey of Some (Int64Value orgID) \<Rightarrow> False | _ \<Rightarrow> True)"

definition store_ready :: "world \<Rightarrow> bool" where
  "store_ready w =
     (case loggerInstance w of
        Some (FilePtr (Some l)) \<Rightarrow>
          (case files w (filePath l) of
             File bytes \<Rightarrow> bytes = [] \<or> last bytes = CHR 0x0A
           | _ \<Rightarrow> False)
      | Some (DBPtr (Some l)) \<Rightarrow> (case dbases w (db l) of Table rows \<Rightarrow> True | _ \<Rightarrow> False)
      | _ \<Rightarrow> False)"

text \<open>
  The arguments the middleware passes to \<open>CreateAuditEvent\<close>, as a record, given the
  status codes of the handler; and the convenience function called with the fields of
  a record.
\<close>

definition submitted_args :: "(string \<times> string) list \<Rightarrow> clock \<Rightarrow> request \<Rightarrow> int list \<Rightarrow> AuditEvent" where
  "submitted_args actionMapping clk r codes =
     \<lparr>Username = getUsernameFromContext (Ctx r),
      ActionString = action_label actionMapping (Method r) (URLPath r),
      ExtraMsg = ''Status: '' @ fmt_d (statusCode (foldl WriteHeader \<lparr>statusCode = 200\<rparr> codes)) @
                 '', Duration: '' @ duration_text clk,
      EpochTimestampSec = event_time clk,
      OrgID = getOrgIDFromContext (Ctx r),
      Metadata = Some (audit_metadata r (statusCode (foldl WriteHeader \<lparr>statusCode = 200\<rparr> codes))
                         (duration_ms clk))\<rparr>"

definition append_event :: "json_codec \<Rightarrow> int \<Rightarrow> AuditEvent \<Rightarrow> world \<Rightarrow> error option \<times> world" where
  "append_event c now r w =
     CreateAuditEvent c now (Username r) (ActionString r) (ExtraMsg r) (EpochTimestampSec r)
       (OrgID r) (Metadata r) w"

section \<open>Concrete records, codecs and stores\<close>

text \<open>
  A small codec for the concrete instances below: events are encoded by a table of
  lines, a metadata string by quoting it.
\<close>

definition table_codec :: "(string \<times> AuditEvent) list \<Rightarrow> json_codec" where
  "table_codec table =
     \<lparr>marshal_event = (\<lambda>event. map_of (map (\<lambda>(ln, ev). (ev, ln)) table) event),
      unmarshal_event = map_of table,
      marshal_value = (\<lambda>v. case v of JStr s \<Rightarrow> Some (CHR ''\"'' # s @ [CHR ''\"'']) | _ \<Rightarrow> None),
      unmarshal_value = (\<lambda>text. if 2 \<le> length text \<and> hd text = CHR ''\"'' \<and> last text = CHR ''\"''
                                 then Some (Some (JStr (butlast (tl text)))) else None)\<rparr>"

definition alice :: AuditEvent where
  "alice = \<lparr>Username = ''alice'', ActionString = ''User logged in'', ExtraMsg = ''Login'',
            EpochTimestampSec = 100, OrgID = 123, Metadata = None\<rparr>"

definition bob :: AuditEvent where
  "bob = \<lparr>Username = ''bob'', ActionString = ''Dashboard created'', ExtraMsg = [],
          EpochTimestampSec = 160, OrgID = 123, Metadata = Some (JStr ''dash-123'')\<rparr>"

definition charlie :: AuditEvent where
  "charlie = \<lparr>Username = ''charlie'', ActionString = ''Index deleted'', ExtraMsg = [],
              EpochTimestampSec = 220, OrgID = 456, Metadata = None\<rparr>"

definition dave :: AuditEvent where
  "dave = \<lparr>Username = ''dave'', ActionString = ''User logged out'', ExtraMsg = [],
           EpochTimestampSec = 0, OrgID = 123, Metadata = None\<rparr>"

definition demo_codec :: json_codec where
  "demo_codec =
     table_codec [(''A'', alice), (''B'', bob), (''C'', charlie), (''D'', dave),
                  (''E'', dave\<lparr>EpochTimestampSec := 500\<rparr>)]"

definition audit_log :: FileAuditLogger where
  "audit_log = \<lparr>filePath = ''audit.log''\<rparr>"

definition audit_db :: DBAuditLogger where
  "audit_db = \<lparr>db = ''audit.db''\<rparr>"

definition empty_files :: filesystem where
  "empty_files = (\<lambda>p. File [])"

definition empty_tables :: databases where
  "empty_tables = (\<lambda>p. Table [])"

text \<open>The world of a fresh process, and one with the file backend active.\<close>

definition fresh_world :: world where
  "fresh_world =
     \<lparr>loggerInstance = None,
      files = (\<lambda>p. if p = ''audit.log'' then File [] else Missing False),
      dbases = (\<lambda>p. NoTable)\<rparr>"

definition running_world :: world where
  "running_world = fresh_world\<lparr>loggerInstance := Some (FilePtr (Some audit_log))\<rparr>"

text \<open>A request without tenant, its handler, the clock and a codec for its record.\<close>

definition guest_request :: request where
  "guest_request =
     \<lparr>Method = ''GET'', URLPath = ''/health'', RequestURI = ''/health?full=1'',
      UserAgent = ''curl'', RemoteAddr = ''10.0.0.7:5100'',
      Ctx = [AuditUserKey \<mapsto> StringValue ''guest'', AuditOrgIDKey \<mapsto> OtherValue]\<rparr>"

definition not_found :: handler where
  "not_found r w = ([404], w)"

definition demo_clock :: clock where
  "demo_clock = \<lparr>duration_text = ''1.5ms'', duration_ms = 1, event_time = 700, store_time = 701\<rparr>"

definition guest_event :: AuditEvent where
  "guest_event = stored_as (store_time demo_clock, submitted_args [] demo_clock guest_request [404])"

definition guest_codec :: json_codec where
  "guest_codec =
     \<lparr>marshal_event = (\<lambda>event. if event = guest_event then Some ''G'' else None),
      unmarshal_event = (\<lambda>ln. if ln = ''G'' then Some guest_event else None),
      marshal_value = (\<lambda>v. Some ''{}''),
      unmarshal_value = (\<lambda>mj. if mj = ''{}'' then Some (Metadata guest_event) else None)\<rparr>"

section \<open>The scan of a file\<close>

declare read_loop.simps [simp del]

lemma read_loop_stop: "Scan unread = None \<Longrightarrow> read_loop c tenant s e unread events = events"
  by (subst read_loop.simps) simp

lemma read_loop_step:
  "Scan unread = Some (cur, rest) \<Longrightarrow>
   read_loop c tenant s e unread events =
     (case unmarshal_event c cur of
        None \<Rightarrow> read_loop c tenant s e rest events
      | Some event \<Rightarrow>
          if spec_matches tenant s e event then read_loop c tenant s e rest (events @ [event])
          else read_loop c tenant s e rest events)"
  by (subst read_loop.simps) (simp add: spec_matches_def split: option.split)

lemma lines_from_Scan_loop:
  "lines_from line unread =
     (case Scan_loop line unread of None \<Rightarrow> [] | Some (cur, rest) \<Rightarrow> cur # lines_from [] rest)"
  by (induction unread arbitrary: line) auto

lemma file_lines_stop: "Scan bytes = None \<Longrightarrow> file_lines bytes = []"
  by (simp add: file_lines_def Scan_def lines_from_Scan_loop [of "[]" bytes])

lemma file_lines_cons: "Scan bytes = Some (cur, rest) \<Longrightarrow> file_lines bytes = cur # file_lines rest"
  by (simp add: file_lines_def Scan_def lines_from_Scan_loop [of "[]" bytes])

lemma read_loop_lines:
  "read_loop c tenant s e bytes acc =
     acc @ filter (spec_matches tenant s e) (List.map_filter (unmarshal_event c) (file_lines bytes))"
proof (induction c tenant s e bytes acc rule: read_loop.induct)
  case (1 c tenant s e unread events)
  show ?case
  proof (cases "Scan unread")
    case None
    then show ?thesis by (simp add: read_loop_stop file_lines_stop)
  next
    case (Some p)
    obtain cur rest where p: "p = (cur, rest)" by (cases p)
    with Some have scan: "Scan unread = Some (cur, rest)" by simp
    show ?thesis
    proof (cases "unmarshal_event c cur")
      case None
      have "read_loop c tenant s e rest events =
              events @ filter (spec_matches tenant s e) (List.map_filter (unmarshal_event c) (file_lines rest))"
        using "1.IH"(1) [OF Some p [symmetric] None] .
      with None show ?thesis
        by (simp add: read_loop_step [OF scan] file_lines_cons [OF scan])
    next
      case (Some ev)
      show ?thesis
      proof (cases "spec_matches tenant s e ev")
        case True
        then have cond: "OrgID ev = tenant \<and> s \<le> EpochTimestampSec ev \<and>
                          (e = 0 \<or> EpochTimestampSec ev \<le> e)"
          by (simp add: spec_matches_def)
        have "read_loop c tenant s e rest (events @ [ev]) =
                (events @ [ev]) @ filter (spec_matches tenant s e) (List.map_filter (unmarshal_event c) (file_lines rest))"
          using "1.IH"(2) [OF \<open>Scan unread = Some p\<close> p [symmetric] Some cond] .
        with Some True show ?thesis
          by (simp add: read_loop_step [OF scan] file_lines_cons [OF scan])
      next
        case False
        then have cond: "\<not> (OrgID ev = tenant \<and> s \<le> EpochTimestampSec ev \<and>
                          (e = 0 \<or> EpochTimestampSec ev \<le> e))"
          by (simp add: spec_matches_def)
        have "read_loop c tenant s e rest events =
                events @ filter (spec_matches tenant s e) (List.map_filter (unmarshal_event c) (file_lines rest))"
          using "1.IH"(3) [OF \<open>Scan unread = Some p\<close> p [symmetric] Some cond] .
        with Some False show ?thesis
          by (simp add: read_loop_step [OF scan] file_lines_cons [OF scan])
      qed
    qed
  qed
qed

lemma Scan_loop_line:
  "CHR 0x0A \<notin> set ln \<Longrightarrow> Scan_loop pre (ln @ CHR 0x0A # rest) = Some (pre @ ln, rest)"
  by (induction ln arbitrary: pre) auto

lemma Scan_loop_tail:
  "CHR 0x0A \<notin> set rst \<Longrightarrow> Scan_loop pre rst = (if pre @ rst = [] then None else Some (pre @ rst, []))"
  by (induction rst arbitrary: pre) auto

lemma file_lines_terminated:
  "\<forall>ln\<in>set lns. CHR 0x0A \<notin> set ln \<Longrightarrow> CHR 0x0A \<notin> set rst \<Longrightarrow>
   file_lines (terminated lns @ rst) = lns @ (if rst = [] then [] else [rst])"
proof (induction lns)
  case Nil
  then show ?case
    using Scan_loop_tail [of rst "[]"]
    by (cases "rst = []") (simp_all add: terminated_def Scan_def file_lines_stop file_lines_cons)
next
  case (Cons ln lns)
  then have "Scan (terminated (ln # lns) @ rst) = Some (ln, terminated lns @ rst)"
    using Scan_loop_line [of ln "[]" "terminated lns @ rst"] by (simp add: Scan_def terminated_def)
  with Cons show ?case by (simp add: file_lines_cons)
qed

lemma File_ReadAuditEvents_lines:
  "fs (filePath l) = File bytes \<Longrightarrow>
   File_ReadAuditEvents c l tenant s e fs =
     Inr (filter (spec_matches tenant s e) (List.map_filter (unmarshal_event c) (file_lines bytes)))"
  by (simp add: File_ReadAuditEvents_def os_Open_def read_loop_lines)

section \<open>Scanning a file with unparsable lines\<close>

text \<open>
  C8. Every file is a sequence of lines that end with the separator, followed by a
  rest without one. \<open>ReadAuditEvents\<close> of the file backend never fails on such a file:
  it returns, in file order, the events of the lines that parse and match the filter;
  a line that does not parse is skipped and the scan goes on.
\<close>

theorem file_read_skips_unparsable_lines:
  assumes "fs (filePath l) = File (terminated lns @ rst)"
    and "\<forall>ln\<in>set lns. CHR 0x0A \<notin> set ln"
    and "CHR 0x0A \<notin> set rst"
  shows "File_ReadAuditEvents c l tenant s e fs =
           Inr (filter (spec_matches tenant s e)
                  (List.map_filter (unmarshal_event c) (lns @ (if rst = [] then [] else [rst]))))"
  using assms by (simp add: File_ReadAuditEvents_lines file_lines_terminated)

text \<open>
  An instance of C8: a file with two unparsable lines, an empty line, a record of another
  tenant and a last line without separator.
\<close>

theorem file_read_skips_unparsable_lines_witness:
  "File_ReadAuditEvents demo_codec \<lparr>filePath = ''audit.log''\<rparr> 123 0 0
     (\<lambda>p. if p = ''audit.log'' then File (terminated [''A'', ''{oops'', [], ''B'', ''C'', ''}}''] @ ''B'')
          else Missing True) =
   Inr [alice, bob, bob]"
  using file_read_skips_unparsable_lines
    [of "\<lambda>p. if p = ''audit.log'' then File (terminated [''A'', ''{oops'', [], ''B'', ''C'', ''}}''] @ ''B'')
          else Missing True" "\<lparr>filePath = ''audit.log''\<rparr>" "[''A'', ''{oops'', [], ''B'', ''C'', ''}}'']" "''B''"
        demo_codec 123 0 0]
  by (simp add: demo_codec_def table_codec_def alice_def bob_def charlie_def spec_matches_def)

section \<open>Which stored records a query returns\<close>

lemma scan_row_fields [simp]:
  "OrgID (scan_row c r) = col_org_id r"
  "EpochTimestampSec (scan_row c r) = col_epoch_timestamp_sec r"
  "Username (scan_row c r) = col_username r"
  "ActionString (scan_row c r) = col_action_string r"
  "ExtraMsg (scan_row c r) = col_extra_msg r"
  by (simp_all add: scan_row_def)

lemma where_clause_relational:
  "where_clause tenant s e = (\<lambda>r. relational_matches tenant s e (scan_row c r))"
  by (auto simp: fun_eq_iff where_clause_def relational_matches_def)

lemma DB_ReadAuditEvents_rows:
  "dbs (db l) = Table rows \<Longrightarrow>
   DB_ReadAuditEvents c l tenant s e dbs =
     Inr (map (scan_row c) (sort_key col_epoch_timestamp_sec
            (filter (\<lambda>r. relational_matches tenant s e (scan_row c r)) rows)))"
  by (simp add: DB_ReadAuditEvents_def run_query_def where_clause_relational [of _ _ _ c])

lemma File_ReadAuditEvents_parsed:
  "fs (filePath l) = File bytes \<Longrightarrow>
   File_ReadAuditEvents c l tenant s e fs = Inr (filter (spec_matches tenant s e) (parsed_events c bytes))"
  by (simp add: File_ReadAuditEvents_lines parsed_events_def)

text \<open>
  C4, as amended. The file backend returns the stored records that match the filter
  of the specification: equal tenant, time at least \<open>start\<close>, and \<open>end\<close> zero or time at
  most \<open>end\<close>. The relational backend returns the rows with equal tenant, time at least
  \<open>start\<close>, and \<open>end\<close> not positive or time at most \<open>end\<close>: a negative \<open>end\<close> is no
  upper bound there.
\<close>

theorem filter_of_each_backend:
  assumes "fs (filePath fl) = File bytes" and "dbs (db dl) = Table rows"
  shows "File_ReadAuditEvents c fl tenant s e fs =
           Inr (filter (spec_matches tenant s e) (parsed_events c bytes)) \<and>
         DB_ReadAuditEvents c dl tenant s e dbs =
           Inr (map (scan_row c) (sort_key col_epoch_timestamp_sec
                  (filter (\<lambda>r. relational_matches tenant s e (scan_row c r)) rows)))"
  using assms by (simp add: File_ReadAuditEvents_parsed DB_ReadAuditEvents_rows)

text \<open>
  Against C4 as stated: with a negative \<open>end\<close> the relational backend returns a record that is later than
  \<open>end\<close>, which the filter of C4 excludes.
\<close>

theorem upper_bound_counterexample:
  "DB_ReadAuditEvents demo_codec \<lparr>db = ''audit.db''\<rparr> 123 0 (- 5) (\<lambda>p. Table [row_of alice []]) = Inr [alice] \<and>
   \<not> spec_matches 123 0 (- 5) alice"
  by (simp add: DB_ReadAuditEvents_def run_query_def where_clause_def scan_row_def row_of_def
        alice_def spec_matches_def)

text \<open>
  An instance of C4: a lower bound that is the time of a record in the file, and an upper
  bound that is the time of a row in the table.
\<close>

theorem filter_of_each_backend_witness:
  "File_ReadAuditEvents demo_codec \<lparr>filePath = ''audit.log''\<rparr> 123 160 0
     (\<lambda>p. File (terminated [''A'', ''B'', ''C''])) = Inr [bob] \<and>
   DB_ReadAuditEvents demo_codec \<lparr>db = ''audit.db''\<rparr> 123 0 100
     (\<lambda>p. Table [row_of bob ''\"dash-123\"'', row_of alice [], row_of charlie []]) = Inr [alice]"
  using filter_of_each_backend
    [of "\<lambda>p. File (terminated [''A'', ''B'', ''C''])" "\<lparr>filePath = ''audit.log''\<rparr>"
        "terminated [''A'', ''B'', ''C'']"
        "\<lambda>p. Table [row_of bob ''\"dash-123\"'', row_of alice [], row_of charlie []]" "\<lparr>db = ''audit.db''\<rparr>"
        "[row_of bob ''\"dash-123\"'', row_of alice [], row_of charlie []]" demo_codec 123 160 0]
    filter_of_each_backend
    [of "\<lambda>p. File (terminated [''A'', ''B'', ''C''])" "\<lparr>filePath = ''audit.log''\<rparr>"
        "terminated [''A'', ''B'', ''C'']"
        "\<lambda>p. Table [row_of bob ''\"dash-123\"'', row_of alice [], row_of charlie []]" "\<lparr>db = ''audit.db''\<rparr>"
        "[row_of bob ''\"dash-123\"'', row_of alice [], row_of charlie []]" demo_codec 123 0 100]
    file_lines_terminated [of "[''A'', ''B'', ''C'']" "[]"]
  by (simp add: parsed_events_def demo_codec_def table_codec_def alice_def bob_def charlie_def
        spec_matches_def relational_matches_def scan_row_def row_of_def)

section \<open>The order of the returned records\<close>

lemma strict_sorted_sort_key:
  fixes f :: "'a \<Rightarrow> int"
  assumes "distinct (map f xs)"
  shows "sorted_wrt (<) (map f (sort_key f xs))"
proof -
  have "distinct (map f (sort_key f xs))"
    using assms by (simp add: distinct_map)
  then show ?thesis by (simp add: strict_sorted_iff)
qed

lemma relational_filter_tenant:
  "filter (\<lambda>r. relational_matches tenant s e (scan_row c r)) rows =
   filter (\<lambda>r. relational_matches tenant s e (scan_row c r)) (filter (\<lambda>r. col_org_id r = tenant) rows)"
  by (induction rows) (auto simp: relational_matches_def)

lemma spec_filter_tenant:
  "filter (spec_matches tenant s e) evs =
   filter (spec_matches tenant s e) (filter (\<lambda>ev. OrgID ev = tenant) evs)"
  by (induction evs) (auto simp: spec_matches_def)

lemma strict_sorted_map_filter:
  fixes f :: "'a \<Rightarrow> int"
  shows "sorted_wrt (<) (map f xs) \<Longrightarrow> sorted_wrt (<) (map f (filter P xs))"
  by (induction xs) auto

text \<open>
  C3, as amended. The relational backend returns a tenant's records strictly ascending
  by time whenever the tenant's rows have distinct times, in whatever order they were
  inserted. The file backend returns the matching records in the order of the file,
  which is the order of the appends: strictly ascending when the tenant's records
  stand in the file in strictly ascending order.
\<close>

theorem order_of_each_backend:
  assumes "dbs (db dl) = Table rows"
    and "distinct (map col_epoch_timestamp_sec (filter (\<lambda>r. col_org_id r = tenant) rows))"
    and "fs (filePath fl) = File bytes"
  shows "(case DB_ReadAuditEvents c dl tenant s e dbs of
            Inl err \<Rightarrow> False
          | Inr events \<Rightarrow> sorted_wrt (<) (map EpochTimestampSec events)) \<and>
         File_ReadAuditEvents c fl tenant s e fs =
           Inr (filter (spec_matches tenant s e) (parsed_events c bytes)) \<and>
         (sorted_wrt (<) (map EpochTimestampSec (filter (\<lambda>ev. OrgID ev = tenant) (parsed_events c bytes)))
          \<longrightarrow> sorted_wrt (<) (map EpochTimestampSec (filter (spec_matches tenant s e) (parsed_events c bytes))))"
proof -
  let ?sel = "filter (\<lambda>r. relational_matches tenant s e (scan_row c r)) rows"
  have "distinct (map col_epoch_timestamp_sec ?sel)"
    using assms(2) relational_filter_tenant [of tenant s e c rows]
      distinct_map_filter [of col_epoch_timestamp_sec "filter (\<lambda>r. col_org_id r = tenant) rows"]
    by simp
  then have "sorted_wrt (<) (map col_epoch_timestamp_sec (sort_key col_epoch_timestamp_sec ?sel))"
    by (rule strict_sorted_sort_key)
  then have rel: "case DB_ReadAuditEvents c dl tenant s e dbs of
            Inl err \<Rightarrow> False
          | Inr events \<Rightarrow> sorted_wrt (<) (map EpochTimestampSec events)"
    using assms(1) by (simp add: DB_ReadAuditEvents_rows o_def)
  have infile: "sorted_wrt (<) (map EpochTimestampSec (filter (\<lambda>ev. OrgID ev = tenant) (parsed_events c bytes)))
      \<Longrightarrow> sorted_wrt (<) (map EpochTimestampSec (filter (spec_matches tenant s e) (parsed_events c bytes)))"
    using spec_filter_tenant [of tenant s e "parsed_events c bytes"]
      strict_sorted_map_filter [of EpochTimestampSec "filter (\<lambda>ev. OrgID ev = tenant) (parsed_events c bytes)"
        "spec_matches tenant s e"]
    by simp
  from rel infile assms(3) show ?thesis
    by (simp add: File_ReadAuditEvents_parsed)
qed

lemma demo_marshal [simp]:
  "marshal_event demo_codec alice = Some ''A''"
  "marshal_event demo_codec bob = Some ''B''"
  "marshal_event demo_codec charlie = Some ''C''"
  "marshal_event demo_codec dave = Some ''D''"
  "marshal_event demo_codec (dave\<lparr>EpochTimestampSec := 500\<rparr>) = Some ''E''"
  by (simp_all add: demo_codec_def table_codec_def alice_def bob_def charlie_def dave_def)

lemma demo_unmarshal [simp]:
  "unmarshal_event demo_codec ''A'' = Some alice"
  "unmarshal_event demo_codec ''B'' = Some bob"
  "unmarshal_event demo_codec ''C'' = Some charlie"
  "unmarshal_event demo_codec ''D'' = Some dave"
  "unmarshal_event demo_codec ''E'' = Some (dave\<lparr>EpochTimestampSec := 500\<rparr>)"
  by (simp_all add: demo_codec_def table_codec_def)

lemma event_eta [simp]:
  "\<lparr>Username = Username r, ActionString = ActionString r, ExtraMsg = ExtraMsg r,
    EpochTimestampSec = EpochTimestampSec r, OrgID = OrgID r, Metadata = Metadata r\<rparr> = (r :: AuditEvent)"
  by (cases r) simp

lemma File_append_stored:
  "fs (filePath l) = File old \<Longrightarrow> EpochTimestampSec r \<noteq> 0 \<Longrightarrow> marshal_event c r = Some js \<Longrightarrow>
   File_append c now l r fs = (None, fs(filePath l := File (old @ js @ [CHR 0x0A])))"
  by (simp add: File_append_def File_CreateAuditEvent_def os_OpenFile_def file_Write_def)

text \<open>
  Against C3 as stated: two appends to an empty file, the later record first: the file backend returns the
  two records in that order, which is not ascending.
\<close>

theorem file_order_counterexample:
  "File_ReadAuditEvents demo_codec audit_log 123 0 0
     (snd (File_append demo_codec 1 audit_log alice
        (snd (File_append demo_codec 1 audit_log bob empty_files)))) = Inr [bob, alice] \<and>
   \<not> sorted_wrt (<) (map EpochTimestampSec [bob, alice])"
proof -
  have ts: "EpochTimestampSec bob = 160" "EpochTimestampSec alice = 100" "OrgID bob = 123" "OrgID alice = 123"
    by (simp_all add: alice_def bob_def)
  have "snd (File_append demo_codec 1 audit_log alice
          (snd (File_append demo_codec 1 audit_log bob empty_files))) (filePath audit_log) =
        File (terminated [''B'', ''A''])"
    using ts by (simp add: File_append_stored [where old = "[]"] File_append_stored [where old = "''B'' @ [CHR 0x0A]"]
          empty_files_def terminated_def)
  then show ?thesis
    using ts file_lines_terminated [of "[''B'', ''A'']" "[]"]
    by (simp add: File_ReadAuditEvents_parsed parsed_events_def spec_matches_def)
qed

text \<open>
  An instance of C3: rows inserted out of order come back ascending, and a file written
  in ascending order comes back so.
\<close>

theorem order_of_each_backend_witness:
  "DB_ReadAuditEvents demo_codec audit_db 123 0 0
     (\<lambda>p. Table [row_of bob ''\"dash-123\"'', row_of charlie [], row_of alice []]) = Inr [alice, bob] \<and>
   File_ReadAuditEvents demo_codec audit_log 123 0 0 (\<lambda>p. File (terminated [''A'', ''C'', ''B''])) =
     Inr [alice, bob] \<and>
   sorted_wrt (<) (map EpochTimestampSec [alice, bob])"
  using order_of_each_backend
    [of "\<lambda>p. Table [row_of bob ''\"dash-123\"'', row_of charlie [], row_of alice []]" audit_db
        "[row_of bob ''\"dash-123\"'', row_of charlie [], row_of alice []]" 123
        "\<lambda>p. File (terminated [''A'', ''C'', ''B''])" audit_log "terminated [''A'', ''C'', ''B'']"
        demo_codec 0 0]
    file_lines_terminated [of "[''A'', ''C'', ''B'']" "[]"]
  by (simp add: parsed_events_def alice_def bob_def charlie_def spec_matches_def row_of_def
        DB_ReadAuditEvents_def run_query_def where_clause_def scan_row_def demo_codec_def table_codec_def)

section \<open>Round trip\<close>

lemma map_filter_append:
  "List.map_filter f (xs @ ys) = List.map_filter f xs @ List.map_filter f ys"
  by (induction xs) (auto split: option.split)

lemma terminated_append: "terminated (lns @ [ln]) = terminated lns @ ln @ [CHR 0x0A]"
  by (simp add: terminated_def)

lemma file_lines_terminated_only:
  "\<forall>ln\<in>set lns. CHR 0x0A \<notin> set ln \<Longrightarrow> file_lines (terminated lns) = lns"
  using file_lines_terminated [of lns "[]"] by simp

lemma scan_row_row_of:
  assumes "codec_roundtrips c r"
  shows "scan_row c (row_of r (metadata_text c r)) = r"
proof (cases "Metadata r")
  case None
  then show ?thesis
    by (cases r) (simp add: scan_row_def row_of_def metadata_text_def)
next
  case (Some m)
  with assms obtain mj where "marshal_value c m = Some mj" "mj \<noteq> []"
      "unmarshal_value c mj = Some (Some m)"
    by (auto simp: codec_roundtrips_def split: option.splits)
  with Some show ?thesis
    by (cases r) (simp add: scan_row_def row_of_def metadata_text_def)
qed

lemma DB_append_stored:
  assumes "dbs (db l) = Table rows" and "EpochTimestampSec r \<noteq> 0" and "codec_roundtrips c r"
  shows "DB_append c now l r dbs = (None, dbs(db l := Table (rows @ [row_of r (metadata_text c r)])))"
proof (cases "Metadata r")
  case None
  with assms(1,2) show ?thesis
    by (simp add: DB_append_def DB_CreateAuditEvent_def row_of_def metadata_text_def)
next
  case (Some m)
  with assms(3) obtain mj where "marshal_value c m = Some mj"
    by (auto simp: codec_roundtrips_def split: option.splits)
  with Some assms(1,2) show ?thesis
    by (simp add: DB_append_def DB_CreateAuditEvent_def row_of_def metadata_text_def)
qed

lemma file_round_trip:
  assumes "codec_roundtrips c r" and "EpochTimestampSec r \<noteq> 0"
    and "s \<le> EpochTimestampSec r" and "e = 0 \<or> EpochTimestampSec r \<le> e"
    and "fs (filePath l) = File (terminated lns)" and "\<forall>ln\<in>set lns. CHR 0x0A \<notin> set ln"
  shows "case File_append c now l r fs of
           (err, fs') \<Rightarrow> err = None \<and> returned r (File_ReadAuditEvents c l (OrgID r) s e fs')"
proof -
  from assms(1) obtain js where js: "marshal_event c r = Some js" "CHR 0x0A \<notin> set js"
      "unmarshal_event c js = Some r"
    by (auto simp: codec_roundtrips_def split: option.splits)
  have app: "File_append c now l r fs = (None, fs(filePath l := File (terminated (lns @ [js]))))"
    using File_append_stored [of fs l "terminated lns" r c js now] assms(5) assms(2) js(1)
    by (simp add: terminated_append)
  have "file_lines (terminated (lns @ [js])) = lns @ [js]"
    using assms(6) js(2) by (intro file_lines_terminated_only) simp
  then have "parsed_events c (terminated (lns @ [js])) = List.map_filter (unmarshal_event c) lns @ [r]"
    using js(3) by (simp add: parsed_events_def map_filter_append)
  moreover have "spec_matches (OrgID r) s e r"
    using assms(3,4) by (simp add: spec_matches_def)
  ultimately show ?thesis
    using app by (simp add: File_ReadAuditEvents_parsed returned_def)
qed

lemma relational_round_trip:
  assumes "codec_roundtrips c r" and "EpochTimestampSec r \<noteq> 0"
    and "s \<le> EpochTimestampSec r" and "e = 0 \<or> EpochTimestampSec r \<le> e"
    and "dbs (db l) = Table rows"
  shows "case DB_append c now l r dbs of
           (err, dbs') \<Rightarrow> err = None \<and> returned r (DB_ReadAuditEvents c l (OrgID r) s e dbs')"
proof -
  let ?row = "row_of r (metadata_text c r)"
  have scan: "scan_row c ?row = r" using assms(1) by (rule scan_row_row_of)
  have "relational_matches (OrgID r) s e r"
    using assms(3,4) by (auto simp: relational_matches_def)
  with scan have "?row \<in> set (sort_key col_epoch_timestamp_sec
      (filter (\<lambda>x. relational_matches (OrgID r) s e (scan_row c x)) (rows @ [?row])))"
    by simp
  then have "r \<in> set (map (scan_row c) (sort_key col_epoch_timestamp_sec
      (filter (\<lambda>x. relational_matches (OrgID r) s e (scan_row c x)) (rows @ [?row]))))"
    using scan by (metis image_eqI set_map)
  then show ?thesis
    using DB_append_stored [of dbs l rows r c now] assms(5) assms(2) assms(1)
    by (simp add: DB_ReadAuditEvents_rows returned_def)
qed

text \<open>
  C1, as amended. A record whose time is not zero and which the codec round-trips is
  returned, equal in every field, by a query for its tenant over a range that contains
  its time, right after it was appended: by the file backend on a file of complete
  lines, and by the relational backend.
\<close>

theorem append_then_query_returns_record:
  assumes "codec_roundtrips c r" and "EpochTimestampSec r \<noteq> 0"
    and "s \<le> EpochTimestampSec r" and "e = 0 \<or> EpochTimestampSec r \<le> e"
    and "fs (filePath fl) = File (terminated lns)" and "\<forall>ln\<in>set lns. CHR 0x0A \<notin> set ln"
    and "dbs (db dl) = Table rows"
  shows "(case File_append c now fl r fs of
            (err, fs') \<Rightarrow> err = None \<and> returned r (File_ReadAuditEvents c fl (OrgID r) s e fs')) \<and>
         (case DB_append c now dl r dbs of
            (err, dbs') \<Rightarrow> err = None \<and> returned r (DB_ReadAuditEvents c dl (OrgID r) s e dbs'))"
  using file_round_trip [of c r s e fs fl lns now] relational_round_trip [of c r s e dbs dl rows now] assms
  by simp

text \<open>The records of the concrete instances are valid for their codec.\<close>

lemma demo_roundtrips:
  "codec_roundtrips demo_codec alice"
  "codec_roundtrips demo_codec bob"
  "codec_roundtrips demo_codec charlie"
  "codec_roundtrips demo_codec dave"
  by (simp_all add: codec_roundtrips_def)
     (simp_all add: demo_codec_def table_codec_def alice_def bob_def charlie_def dave_def)

text \<open>
  Against C1 as stated: a record with time zero is stored with the reading of the clock (here 500), so the
  query, whose range contains zero, returns a record that differs from it in its time.
\<close>

theorem zero_time_counterexample:
  "codec_roundtrips demo_codec dave \<and>
   File_ReadAuditEvents demo_codec audit_log (OrgID dave) 0 0
     (snd (File_append demo_codec 500 audit_log dave empty_files)) =
     Inr [dave\<lparr>EpochTimestampSec := 500\<rparr>] \<and>
   DB_ReadAuditEvents demo_codec audit_db (OrgID dave) 0 0
     (snd (DB_append demo_codec 500 audit_db dave empty_tables)) =
     Inr [dave\<lparr>EpochTimestampSec := 500\<rparr>] \<and>
   dave\<lparr>EpochTimestampSec := 500\<rparr> \<noteq> dave"
proof -
  have stored: "\<lparr>Username = Username dave, ActionString = ActionString dave, ExtraMsg = ExtraMsg dave,
      EpochTimestampSec = 500, OrgID = OrgID dave, Metadata = Metadata dave\<rparr> =
      dave\<lparr>EpochTimestampSec := 500\<rparr>"
    by (simp add: dave_def)
  have "snd (File_append demo_codec 500 audit_log dave empty_files) (filePath audit_log) =
          File (terminated [''E''])"
    by (simp add: File_append_def File_CreateAuditEvent_def stored os_OpenFile_def file_Write_def
          empty_files_def terminated_def dave_def [THEN arg_cong, of EpochTimestampSec])
  then have f: "File_ReadAuditEvents demo_codec audit_log (OrgID dave) 0 0
      (snd (File_append demo_codec 500 audit_log dave empty_files)) =
      Inr [dave\<lparr>EpochTimestampSec := 500\<rparr>]"
    using file_lines_terminated [of "[''E'']" "[]"]
    by (simp add: File_ReadAuditEvents_parsed parsed_events_def spec_matches_def)
  have d: "DB_ReadAuditEvents demo_codec audit_db (OrgID dave) 0 0
      (snd (DB_append demo_codec 500 audit_db dave empty_tables)) =
      Inr [dave\<lparr>EpochTimestampSec := 500\<rparr>]"
    by (simp add: DB_append_def DB_CreateAuditEvent_def DB_ReadAuditEvents_def run_query_def
          where_clause_def scan_row_def empty_tables_def dave_def)
  have "dave\<lparr>EpochTimestampSec := 500\<rparr> \<noteq> dave"
    by (simp add: dave_def)
  with f d demo_roundtrips(4) show ?thesis by simp
qed

text \<open>
  An instance of C1: a record with metadata, appended after other lines and rows, and
  queried over the range that is just its time.
\<close>

theorem append_then_query_returns_record_witness:
  "returned bob (File_ReadAuditEvents demo_codec audit_log 123 160 160
     (snd (File_append demo_codec 1 audit_log bob (\<lambda>p. File (terminated [''A'', ''{oops'']))))) \<and>
   returned bob (DB_ReadAuditEvents demo_codec audit_db 123 160 160
     (snd (DB_append demo_codec 1 audit_db bob (\<lambda>p. Table [row_of alice []]))))"
  using append_then_query_returns_record
    [of demo_codec bob 160 160 "\<lambda>p. File (terminated [''A'', ''{oops''])" audit_log "[''A'', ''{oops'']"
        "\<lambda>p. Table [row_of alice []]" audit_db "[row_of alice []]" 1]
    demo_roundtrips(2)
  by (simp add: bob_def [THEN arg_cong, of EpochTimestampSec] bob_def [THEN arg_cong, of OrgID]
        case_prod_beta)

section \<open>The two backends side by side\<close>

lemma stored_as_event:
  "stored_as (now, r) =
     \<lparr>Username = Username r, ActionString = ActionString r, ExtraMsg = ExtraMsg r,
      EpochTimestampSec = (if EpochTimestampSec r = 0 then now else EpochTimestampSec r),
      OrgID = OrgID r, Metadata = Metadata r\<rparr>"
  by (cases r) (simp add: stored_as_def)

lemma File_append_call:
  assumes "fs (filePath l) = File old" and "marshal_event c (stored_as (now, r)) = Some js"
  shows "File_append c now l r fs = (None, fs(filePath l := File (old @ js @ [CHR 0x0A])))"
  using assms
  by (simp add: File_append_def File_CreateAuditEvent_def Let_def stored_as_event os_OpenFile_def
        file_Write_def)

lemma DB_append_call:
  assumes "dbs (db l) = Table rows" and "codec_roundtrips c (stored_as (now, r))"
  shows "DB_append c now l r dbs =
           (None, dbs(db l := Table (rows @
              [row_of (stored_as (now, r)) (metadata_text c (stored_as (now, r)))])))"
proof (cases "Metadata r")
  case None
  with assms(1) show ?thesis
    by (simp add: DB_append_def DB_CreateAuditEvent_def row_of_def metadata_text_def stored_as_event)
next
  case (Some m)
  with assms(2) obtain mj where "marshal_value c m = Some mj"
    by (auto simp: codec_roundtrips_def stored_as_event split: option.splits)
  with Some assms(1) show ?thesis
    by (simp add: DB_append_def DB_CreateAuditEvent_def row_of_def metadata_text_def stored_as_event)
qed

lemma line_of_roundtrips:
  assumes "codec_roundtrips c r"
  shows "marshal_event c r = Some (line_of c r)" and "CHR 0x0A \<notin> set (line_of c r)"
    and "unmarshal_event c (line_of c r) = Some r"
  using assms by (auto simp: codec_roundtrips_def line_of_def split: option.splits)

lemma File_appends_content:
  assumes "\<forall>call\<in>set calls. codec_roundtrips c (stored_as call)"
    and "fs (filePath l) = File (terminated lns)"
  shows "File_appends c l calls fs (filePath l) =
           File (terminated (lns @ map (\<lambda>call. line_of c (stored_as call)) calls))"
  using assms
proof (induction calls arbitrary: fs lns)
  case Nil
  then show ?case by simp
next
  case (Cons call calls)
  obtain now r where call: "call = (now, r)" by (cases call)
  let ?js = "line_of c (stored_as (now, r))"
  have "marshal_event c (stored_as (now, r)) = Some ?js"
    using Cons.prems(1) call by (simp add: line_of_roundtrips(1))
  then have step: "File_append c now l r fs = (None, fs(filePath l := File (terminated (lns @ [?js]))))"
    using File_append_call [of fs l "terminated lns" c now r ?js] Cons.prems(2)
    by (simp add: terminated_append)
  have "File_appends c l calls (fs(filePath l := File (terminated (lns @ [?js])))) (filePath l) =
          File (terminated ((lns @ [?js]) @ map (\<lambda>call. line_of c (stored_as call)) calls))"
    using Cons.prems(1) by (intro Cons.IH) simp_all
  with step call show ?case by simp
qed

lemma DB_appends_rows:
  assumes "\<forall>call\<in>set calls. codec_roundtrips c (stored_as call)"
    and "dbs (db l) = Table rows"
  shows "DB_appends c l calls dbs (db l) =
           Table (rows @ map (\<lambda>call. row_of (stored_as call) (metadata_text c (stored_as call))) calls)"
  using assms
proof (induction calls arbitrary: dbs rows)
  case Nil
  then show ?case by simp
next
  case (Cons call calls)
  obtain now r where call: "call = (now, r)" by (cases call)
  let ?row = "row_of (stored_as (now, r)) (metadata_text c (stored_as (now, r)))"
  have step: "DB_append c now l r dbs = (None, dbs(db l := Table (rows @ [?row])))"
    using DB_append_call [of dbs l rows c now r] Cons.prems call by simp
  have "DB_appends c l calls (dbs(db l := Table (rows @ [?row]))) (db l) =
          Table ((rows @ [?row]) @
            map (\<lambda>call. row_of (stored_as call) (metadata_text c (stored_as call))) calls)"
    using Cons.prems(1) by (intro Cons.IH) simp_all
  with step call show ?case by simp
qed

lemma parsed_lines_of:
  assumes "\<forall>call\<in>set calls. codec_roundtrips c (stored_as call)"
  shows "parsed_events c (terminated (map (\<lambda>call. line_of c (stored_as call)) calls)) =
           map stored_as calls"
proof -
  have "file_lines (terminated (map (\<lambda>call. line_of c (stored_as call)) calls)) =
          map (\<lambda>call. line_of c (stored_as call)) calls"
    using assms by (intro file_lines_terminated_only) (auto simp: line_of_roundtrips(2))
  moreover have "List.map_filter (unmarshal_event c) (map (\<lambda>call. line_of c (stored_as call)) calls) =
          map stored_as calls"
    using assms by (induction calls) (simp_all add: line_of_roundtrips(3))
  ultimately show ?thesis by (simp add: parsed_events_def)
qed

lemma scanned_rows_of:
  assumes "\<forall>call\<in>set calls. codec_roundtrips c (stored_as call)"
  shows "map (scan_row c) (map (\<lambda>call. row_of (stored_as call) (metadata_text c (stored_as call))) calls) =
           map stored_as calls"
  using assms by (induction calls) (simp_all add: scan_row_row_of)

lemma relational_is_spec: "0 \<le> e \<Longrightarrow> relational_matches tenant s e = spec_matches tenant s e"
  by (auto simp: fun_eq_iff relational_matches_def spec_matches_def)

lemma sorted_query_is_filter:
  assumes "sorted (map EpochTimestampSec (filter (\<lambda>ev. OrgID ev = tenant) (map (scan_row c) rows)))"
  shows "map (scan_row c) (sort_key col_epoch_timestamp_sec
            (filter (\<lambda>r. spec_matches tenant s e (scan_row c r)) rows)) =
         filter (spec_matches tenant s e) (map (scan_row c) rows)"
proof -
  let ?sel = "filter (\<lambda>r. spec_matches tenant s e (scan_row c r)) rows"
  have "map col_epoch_timestamp_sec ?sel =
          map EpochTimestampSec (filter (spec_matches tenant s e) (map (scan_row c) rows))"
    by (simp add: filter_map o_def)
  also have "\<dots> = map EpochTimestampSec (filter (spec_matches tenant s e)
                      (filter (\<lambda>ev. OrgID ev = tenant) (map (scan_row c) rows)))"
    using spec_filter_tenant [of tenant s e "map (scan_row c) rows"] by simp
  finally have "sorted (map col_epoch_timestamp_sec ?sel)"
    using assms sorted_filter [of EpochTimestampSec "filter (\<lambda>ev. OrgID ev = tenant) (map (scan_row c) rows)"
        "spec_matches tenant s e"]
    by simp
  then have "sort_key col_epoch_timestamp_sec ?sel = ?sel"
    by (rule sort_key_id_if_sorted)
  then show ?thesis by (simp add: filter_map o_def)
qed

text \<open>
  C2, as amended. On a fresh file and a fresh table, after the same sequence of calls
  whose stored records the codec round-trips and whose times, within the queried
  tenant, never decrease, a query with \<open>end\<close> not negative returns the same records in
  the same order from both backends: the stored records that match, in the order of
  the calls.
\<close>

theorem backends_agree:
  assumes "\<forall>call\<in>set calls. codec_roundtrips c (stored_as call)"
    and "sorted (map EpochTimestampSec (filter (\<lambda>ev. OrgID ev = tenant) (map stored_as calls)))"
    and "0 \<le> e"
    and "fs (filePath fl) = File []" and "dbs (db dl) = Table []"
  shows "File_ReadAuditEvents c fl tenant s e (File_appends c fl calls fs) =
           Inr (filter (spec_matches tenant s e) (map stored_as calls)) \<and>
         DB_ReadAuditEvents c dl tenant s e (DB_appends c dl calls dbs) =
           Inr (filter (spec_matches tenant s e) (map stored_as calls))"
proof -
  have "File_appends c fl calls fs (filePath fl) =
          File (terminated ([] @ map (\<lambda>call. line_of c (stored_as call)) calls))"
    using assms(1,4) by (intro File_appends_content) (simp_all add: terminated_def)
  then have left: "File_ReadAuditEvents c fl tenant s e (File_appends c fl calls fs) =
      Inr (filter (spec_matches tenant s e) (map stored_as calls))"
    using parsed_lines_of [OF assms(1)] by (simp add: File_ReadAuditEvents_parsed)
  let ?rows = "map (\<lambda>call. row_of (stored_as call) (metadata_text c (stored_as call))) calls"
  have rows: "DB_appends c dl calls dbs (db dl) = Table ([] @ ?rows)"
    using assms(1,5) by (intro DB_appends_rows) simp_all
  have scanned: "map (scan_row c) ?rows = map stored_as calls"
    using assms(1) by (rule scanned_rows_of)
  have "sorted (map EpochTimestampSec (filter (\<lambda>ev. OrgID ev = tenant) (map (scan_row c) ?rows)))"
    using assms(2) by (simp only: scanned)
  then have "map (scan_row c) (sort_key col_epoch_timestamp_sec
            (filter (\<lambda>r. spec_matches tenant s e (scan_row c r)) ?rows)) =
         filter (spec_matches tenant s e) (map (scan_row c) ?rows)"
    by (rule sorted_query_is_filter)
  then have "map (scan_row c) (sort_key col_epoch_timestamp_sec
            (filter (\<lambda>r. spec_matches tenant s e (scan_row c r)) ?rows)) =
         filter (spec_matches tenant s e) (map stored_as calls)"
    by (simp only: scanned)
  with rows have right: "DB_ReadAuditEvents c dl tenant s e (DB_appends c dl calls dbs) =
      Inr (filter (spec_matches tenant s e) (map stored_as calls))"
    using relational_is_spec [OF assms(3), of tenant s]
    by (simp add: DB_ReadAuditEvents_rows)
  from left right show ?thesis by simp
qed

lemma row_of_fields [simp]:
  "col_epoch_timestamp_sec (row_of r mj) = EpochTimestampSec r"
  "col_org_id (row_of r mj) = OrgID r"
  by (simp_all add: row_of_def)

lemma demo_times:
  "EpochTimestampSec alice = 100" "EpochTimestampSec bob = 160" "EpochTimestampSec charlie = 220"
  "EpochTimestampSec dave = 0"
  "OrgID alice = 123" "OrgID bob = 123" "OrgID charlie = 456" "OrgID dave = 123"
  by (simp_all add: alice_def bob_def charlie_def dave_def)

lemma demo_stored:
  "stored_as (1, alice) = alice" "stored_as (1, bob) = bob" "stored_as (1, charlie) = charlie"
  "stored_as (500, dave) = dave\<lparr>EpochTimestampSec := 500\<rparr>"
  by (simp_all add: stored_as_def alice_def bob_def charlie_def dave_def)

lemma demo_roundtrips_stored: "codec_roundtrips demo_codec (dave\<lparr>EpochTimestampSec := 500\<rparr>)"
  by (simp add: codec_roundtrips_def) (simp add: demo_codec_def table_codec_def dave_def)

text \<open>
  Against C2 as stated: two calls with the later record first: the file backend returns them as appended,
  the relational backend sorted. And with a negative \<open>end\<close> the file backend returns
  nothing where the relational backend returns the record.
\<close>

theorem backends_differ_counterexample:
  "File_ReadAuditEvents demo_codec audit_log 123 0 0
     (File_appends demo_codec audit_log [(1, bob), (1, alice)] empty_files) = Inr [bob, alice] \<and>
   DB_ReadAuditEvents demo_codec audit_db 123 0 0
     (DB_appends demo_codec audit_db [(1, bob), (1, alice)] empty_tables) = Inr [alice, bob] \<and>
   [bob, alice] \<noteq> [alice, bob] \<and>
   File_ReadAuditEvents demo_codec audit_log 123 0 (- 5)
     (File_appends demo_codec audit_log [(1, alice)] empty_files) = Inr [] \<and>
   DB_ReadAuditEvents demo_codec audit_db 123 0 (- 5)
     (DB_appends demo_codec audit_db [(1, alice)] empty_tables) = Inr [alice]"
proof -
  have two: "\<forall>call\<in>set [(1, bob), (1, alice)]. codec_roundtrips demo_codec (stored_as call)"
    and one: "\<forall>call\<in>set [(1, alice)]. codec_roundtrips demo_codec (stored_as call)"
    by (simp_all add: demo_stored demo_roundtrips)
  have f2: "File_appends demo_codec audit_log [(1, bob), (1, alice)] empty_files (filePath audit_log) =
      File (terminated ([] @ map (\<lambda>call. line_of demo_codec (stored_as call)) [(1, bob), (1, alice)]))"
    using two by (intro File_appends_content) (simp_all add: empty_files_def terminated_def)
  have f1: "File_appends demo_codec audit_log [(1, alice)] empty_files (filePath audit_log) =
      File (terminated ([] @ map (\<lambda>call. line_of demo_codec (stored_as call)) [(1, alice)]))"
    using one by (intro File_appends_content) (simp_all add: empty_files_def terminated_def)
  have d2: "DB_appends demo_codec audit_db [(1, bob), (1, alice)] empty_tables (db audit_db) =
      Table ([] @ map (\<lambda>call. row_of (stored_as call) (metadata_text demo_codec (stored_as call)))
               [(1, bob), (1, alice)])"
    using two by (intro DB_appends_rows) (simp_all add: empty_tables_def)
  have d1: "DB_appends demo_codec audit_db [(1, alice)] empty_tables (db audit_db) =
      Table ([] @ map (\<lambda>call. row_of (stored_as call) (metadata_text demo_codec (stored_as call)))
               [(1, alice)])"
    using one by (intro DB_appends_rows) (simp_all add: empty_tables_def)
  have neq: "[bob, alice] \<noteq> [alice, bob]"
    by (simp add: alice_def bob_def)
  have a: "File_ReadAuditEvents demo_codec audit_log 123 0 0
     (File_appends demo_codec audit_log [(1, bob), (1, alice)] empty_files) = Inr [bob, alice]"
    using f2 parsed_lines_of [OF two]
    by (simp add: File_ReadAuditEvents_parsed demo_stored spec_matches_def demo_times)
  have b: "DB_ReadAuditEvents demo_codec audit_db 123 0 0
     (DB_appends demo_codec audit_db [(1, bob), (1, alice)] empty_tables) = Inr [alice, bob]"
    using d2 demo_roundtrips
    by (simp add: DB_ReadAuditEvents_rows demo_stored relational_matches_def demo_times
          scan_row_row_of)
  have c: "File_ReadAuditEvents demo_codec audit_log 123 0 (- 5)
     (File_appends demo_codec audit_log [(1, alice)] empty_files) = Inr []"
    using f1 parsed_lines_of [OF one]
    by (simp add: File_ReadAuditEvents_parsed demo_stored spec_matches_def demo_times)
  have d: "DB_ReadAuditEvents demo_codec audit_db 123 0 (- 5)
     (DB_appends demo_codec audit_db [(1, alice)] empty_tables) = Inr [alice]"
    using d1 demo_roundtrips
    by (simp add: DB_ReadAuditEvents_rows demo_stored relational_matches_def demo_times
          scan_row_row_of)
  from a b neq c d show ?thesis by simp
qed

text \<open>
  An instance of C2: four calls, one of them with time zero, queried for one tenant.
\<close>

theorem backends_agree_witness:
  "File_ReadAuditEvents demo_codec audit_log 123 0 1000
     (File_appends demo_codec audit_log [(1, alice), (1, bob), (1, charlie), (500, dave)] empty_files) =
     Inr [alice, bob, dave\<lparr>EpochTimestampSec := 500\<rparr>] \<and>
   DB_ReadAuditEvents demo_codec audit_db 123 0 1000
     (DB_appends demo_codec audit_db [(1, alice), (1, bob), (1, charlie), (500, dave)] empty_tables) =
     Inr [alice, bob, dave\<lparr>EpochTimestampSec := 500\<rparr>]"
  using backends_agree
    [of "[(1, alice), (1, bob), (1, charlie), (500, dave)]" demo_codec 123 1000 empty_files audit_log
        empty_tables audit_db 0]
    demo_roundtrips demo_roundtrips_stored
  by (simp add: demo_stored demo_times spec_matches_def empty_files_def empty_tables_def)

section \<open>Constructing the file backend\<close>

text \<open>
  C9, as amended. \<open>NewFileAuditLogger\<close> creates the file, empty, when \<open>os.Stat\<close>
  reports that it does not exist and it can be created; it returns an error and no
  logger when that creation fails; it returns a logger and leaves the file system as it
  is when the file exists.
\<close>

theorem new_file_logger_cases:
  "(fs path = Missing True \<longrightarrow>
      NewFileAuditLogger path fs = ((Some \<lparr>filePath = path\<rparr>, None), fs(path := File []))) \<and>
   (fs path = Missing False \<longrightarrow>
      NewFileAuditLogger path fs = ((None, Some CreateFileFailed), fs)) \<and>
   (fs path = File bytes \<longrightarrow>
      NewFileAuditLogger path fs = ((Some \<lparr>filePath = path\<rparr>, None), fs))"
  by (simp add: NewFileAuditLogger_def os_Stat_def os_Create_def)

text \<open>
  Against C9 as stated: where \<open>os.Stat\<close> fails for another reason than absence, the
  constructor returns a logger and no error, though the file was neither found nor
  created.
\<close>

theorem stat_failure_counterexample:
  "os_Stat (\<lambda>p. Denied) ''audit.log'' = StatOtherError \<and>
   NewFileAuditLogger ''audit.log'' (\<lambda>p. Denied) = ((Some \<lparr>filePath = ''audit.log''\<rparr>, None), (\<lambda>p. Denied))"
  by (simp add: NewFileAuditLogger_def os_Stat_def)

text \<open>
  An instance of C9 for each of the three cases.
\<close>

theorem new_file_logger_cases_witness:
  "NewFileAuditLogger ''audit.log'' (\<lambda>p. Missing True) =
     ((Some \<lparr>filePath = ''audit.log''\<rparr>, None), (\<lambda>p. Missing True)(''audit.log'' := File [])) \<and>
   NewFileAuditLogger ''audit.log'' (\<lambda>p. Missing False) = ((None, Some CreateFileFailed), (\<lambda>p. Missing False)) \<and>
   NewFileAuditLogger ''audit.log'' (\<lambda>p. File ''A'') =
     ((Some \<lparr>filePath = ''audit.log''\<rparr>, None), (\<lambda>p. File ''A''))"
  using new_file_logger_cases [of "\<lambda>p. Missing True" "''audit.log''"]
    new_file_logger_cases [of "\<lambda>p. Missing False" "''audit.log''"]
    new_file_logger_cases [of "\<lambda>p. File ''A''" "''audit.log''" "''A''"]
  by simp

section \<open>The registry\<close>

text \<open>
  An unknown backend kind and a missing configuration key leave the world as it is;
  and while \<open>loggerInstance\<close> is nil, the three functions report that the logger is not
  initialised.
\<close>

lemma InitAuditLogger_config_error:
  "loggerType \<noteq> FileLoggerType \<Longrightarrow> loggerType \<noteq> DBLoggerType \<Longrightarrow>
   InitAuditLogger loggerType config w = (Some (UnsupportedLoggerType loggerType), w)"
  "config ''filePath'' = None \<Longrightarrow> InitAuditLogger FileLoggerType config w = (Some FilePathNotProvided, w)"
  "config ''dbPath'' = None \<Longrightarrow> InitAuditLogger DBLoggerType config w = (Some DBPathNotProvided, w)"
  by (simp_all add: InitAuditLogger_def FileLoggerType_def DBLoggerType_def)

lemma not_initialized:
  assumes "loggerInstance w = None"
  shows "GetAuditLogger w = Inl NotInitialized"
    and "CreateAuditEvent c now username actionString extraMsg ts orgID metadata w = (Some NotInitialized, w)"
    and "ReadAuditEvents c orgID s e w = Inl NotInitialized"
  using assms by (simp_all add: GetAuditLogger_def CreateAuditEvent_def ReadAuditEvents_def)

text \<open>
  C5. With the file backend active, an \<open>InitAuditLogger\<close> whose file cannot be created
  returns the error and yet replaces the active store by a nil pointer:
  \<open>GetAuditLogger\<close> then hands that pointer out without error, and a call that
  succeeded before panics.
\<close>

theorem failed_construction_replaces_store:
  "InitAuditLogger FileLoggerType [''filePath'' \<mapsto> ''/missing/audit.log''] running_world =
     (Some CreateFileFailed, running_world\<lparr>loggerInstance := Some (FilePtr None)\<rparr>) \<and>
   GetAuditLogger running_world = Inr (FilePtr (Some audit_log)) \<and>
   GetAuditLogger (running_world\<lparr>loggerInstance := Some (FilePtr None)\<rparr>) = Inr (FilePtr None) \<and>
   ReadAuditEvents demo_codec 123 0 0 running_world = Inr [] \<and>
   ReadAuditEvents demo_codec 123 0 0 (running_world\<lparr>loggerInstance := Some (FilePtr None)\<rparr>) =
     Inl NilPointerPanic"
  by (simp add: InitAuditLogger_def FileLoggerType_def NewFileAuditLogger_def os_Stat_def os_Create_def
        running_world_def fresh_world_def GetAuditLogger_def ReadAuditEvents_def
        File_ReadAuditEvents_def os_Open_def audit_log_def read_loop_stop Scan_def)

text \<open>
  C6. In a fresh process, after an \<open>InitAuditLogger\<close> that failed to create its file,
  \<open>GetAuditLogger\<close> does not fail with the error for a missing initialisation: it
  returns a logger that is a nil pointer, and both convenience functions panic on it.
\<close>

theorem failed_construction_hides_not_initialized:
  "InitAuditLogger FileLoggerType [''filePath'' \<mapsto> ''/missing/audit.log''] fresh_world =
     (Some CreateFileFailed, fresh_world\<lparr>loggerInstance := Some (FilePtr None)\<rparr>) \<and>
   GetAuditLogger fresh_world = Inl NotInitialized \<and>
   GetAuditLogger (fresh_world\<lparr>loggerInstance := Some (FilePtr None)\<rparr>) = Inr (FilePtr None) \<and>
   CreateAuditEvent demo_codec 1 ''alice'' ''User logged in'' [] 100 123 None
     (fresh_world\<lparr>loggerInstance := Some (FilePtr None)\<rparr>) =
     (Some NilPointerPanic, fresh_world\<lparr>loggerInstance := Some (FilePtr None)\<rparr>) \<and>
   ReadAuditEvents demo_codec 123 0 0 (fresh_world\<lparr>loggerInstance := Some (FilePtr None)\<rparr>) =
     Inl NilPointerPanic"
  by (simp add: InitAuditLogger_def FileLoggerType_def NewFileAuditLogger_def os_Stat_def os_Create_def
        fresh_world_def GetAuditLogger_def ReadAuditEvents_def CreateAuditEvent_def)

section \<open>Choosing the action label\<close>

lemma two_parts: "length parts = 2 \<Longrightarrow> parts = [parts ! 0, parts ! 1]"
  by (cases parts; cases "tl parts") auto

lemma find_action_entry:
  "find_action ((pattern, action) # rest) method path =
     (if entry_matches pattern method path then action else find_action rest method path)"
proof (cases "length (Split pattern CHR '' '') = 2")
  case True
  then obtain m p where "Split pattern CHR '' '' = [m, p]"
    using two_parts by blast
  then show ?thesis by (auto simp: entry_matches_def)
next
  case False
  then have "\<not> entry_matches pattern method path"
    by (auto simp: entry_matches_def split: list.splits)
  with False show ?thesis by simp
qed

lemma find_action_none:
  "\<forall>(pattern, action)\<in>set mapping. \<not> entry_matches pattern method path \<Longrightarrow>
   find_action mapping method path = []"
proof (induction mapping)
  case Nil
  then show ?case by simp
next
  case (Cons entry mapping)
  obtain pattern action where "entry = (pattern, action)" by (cases entry)
  with Cons show ?case by (simp add: find_action_entry del: find_action.simps)
qed

lemma find_action_first:
  "\<forall>(pattern, action)\<in>set before. \<not> entry_matches pattern method path \<Longrightarrow>
   entry_matches pattern method path \<Longrightarrow>
   find_action (before @ (pattern, action) # after) method path = action"
proof (induction before)
  case Nil
  then show ?case by (simp add: find_action_entry del: find_action.simps)
next
  case (Cons entry before)
  obtain p a where "entry = (p, a)" by (cases entry)
  with Cons show ?case by (simp add: find_action_entry del: find_action.simps)
qed

text \<open>
  C7, as amended. The label is the action of the first entry, in the order the mapping
  is visited, that matches the request, be it exact or by prefix, when that action is
  not empty; no entry matching, the label is made of the method and the path.
\<close>

theorem first_matching_entry_gives_label:
  "((\<forall>(p, a)\<in>set before. \<not> entry_matches p method path) \<and>
    entry_matches pattern method path \<and> action \<noteq> [] \<longrightarrow>
      action_label (before @ (pattern, action) # after) method path = action) \<and>
   ((\<forall>(p, a)\<in>set mapping. \<not> entry_matches p method path) \<longrightarrow>
      action_label mapping method path = method @ '' request to '' @ path)"
  by (simp add: action_label_def find_action_first find_action_none)

text \<open>
  Against C7 as stated: a mapping with an exact entry and a wildcard entry that both match, visited wildcard
  first: the label is the wildcard's. Visited exact first, it is the exact entry's.
\<close>

theorem wildcard_first_counterexample:
  "entry_matches ''GET /api/users'' ''GET'' ''/api/users'' \<and>
   entry_matches ''GET /api/*'' ''GET'' ''/api/users'' \<and>
   action_label [(''GET /api/*'', ''API call''), (''GET /api/users'', ''Users listed'')]
     ''GET'' ''/api/users'' = ''API call'' \<and>
   action_label [(''GET /api/users'', ''Users listed''), (''GET /api/*'', ''API call'')]
     ''GET'' ''/api/users'' = ''Users listed''"
  by (simp add: action_label_def entry_matches_def Split_def HasSuffix_def HasPrefix_def
        TrimSuffix_def)

text \<open>
  An instance of C7: an exact entry visited before the wildcard entry, and a request that
  no entry matches.
\<close>

theorem first_matching_entry_gives_label_witness:
  "action_label ([(''POST /login'', ''User logged in'')] @ (''GET /api/users'', ''Users listed'') #
     [(''GET /api/*'', ''API call'')]) ''GET'' ''/api/users'' = ''Users listed'' \<and>
   action_label [(''POST /login'', ''User logged in'')] ''GET'' ''/api/users'' =
     ''GET request to /api/users''"
  using first_matching_entry_gives_label
    [of "[(''POST /login'', ''User logged in'')]" "''GET''" "''/api/users''" "''GET /api/users''"
        "''Users listed''" "[(''GET /api/*'', ''API call'')]" "[(''POST /login'', ''User logged in'')]"]
  by (simp add: entry_matches_def Split_def HasSuffix_def HasPrefix_def TrimSuffix_def)

section \<open>Requests without a tenant\<close>

lemma lines_exist:
  "\<exists>lns rst. bytes = terminated lns @ rst \<and> (\<forall>ln\<in>set lns. CHR 0x0A \<notin> set ln) \<and> CHR 0x0A \<notin> set rst"
proof (induction bytes rule: rev_induct)
  case Nil
  have "[] = terminated [] @ [] \<and> (\<forall>ln\<in>set []. CHR 0x0A \<notin> set ln) \<and> CHR 0x0A \<notin> set []"
    by (simp add: terminated_def)
  then show ?case by blast
next
  case (snoc b bytes)
  then obtain lns rst where dec: "bytes = terminated lns @ rst" "\<forall>ln\<in>set lns. CHR 0x0A \<notin> set ln"
      "CHR 0x0A \<notin> set rst"
    by blast
  show ?case
  proof (cases "b = CHR 0x0A")
    case True
    with dec have "bytes @ [b] = terminated (lns @ [rst]) @ [] \<and>
        (\<forall>ln\<in>set (lns @ [rst]). CHR 0x0A \<notin> set ln) \<and> CHR 0x0A \<notin> set []"
      by (simp add: terminated_append)
    then show ?thesis by blast
  next
    case False
    with dec have "bytes @ [b] = terminated lns @ (rst @ [b]) \<and>
        (\<forall>ln\<in>set lns. CHR 0x0A \<notin> set ln) \<and> CHR 0x0A \<notin> set (rst @ [b])"
      by simp
    then show ?thesis by blast
  qed
qed

lemma complete_lines_exist:
  assumes "bytes = [] \<or> last bytes = CHR 0x0A"
  shows "\<exists>lns. bytes = terminated lns \<and> (\<forall>ln\<in>set lns. CHR 0x0A \<notin> set ln)"
proof -
  obtain lns rst where dec: "bytes = terminated lns @ rst" "\<forall>ln\<in>set lns. CHR 0x0A \<notin> set ln"
      "CHR 0x0A \<notin> set rst"
    using lines_exist by blast
  have "rst = []"
  proof (rule ccontr)
    assume "rst \<noteq> []"
    with dec(1) have "bytes \<noteq> []" "last bytes = last rst" by simp_all
    with assms \<open>rst \<noteq> []\<close> dec(3) show False
      using last_in_set by fastforce
  qed
  with dec show ?thesis by auto
qed

lemma returned_has_tenant:
  "returned ev (ReadAuditEvents c tenant s e w) \<Longrightarrow> OrgID ev = tenant"
proof -
  assume ret: "returned ev (ReadAuditEvents c tenant s e w)"
  have f: "returned ev (File_ReadAuditEvents c l tenant s e fs) \<Longrightarrow> OrgID ev = tenant" for l fs
    by (cases "fs (filePath l)")
       (auto simp: returned_def File_ReadAuditEvents_def os_Open_def read_loop_lines
          spec_matches_def)
  have d: "returned ev (DB_ReadAuditEvents c l tenant s e dbs) \<Longrightarrow> OrgID ev = tenant" for l dbs
    by (cases "dbs (db l)")
       (auto simp: returned_def DB_ReadAuditEvents_def run_query_def where_clause_def)
  from ret f d show ?thesis
    by (auto simp: ReadAuditEvents_def GetAuditLogger_def returned_def
          split: option.splits AuditLogger.splits)
qed

lemma AuditMiddleware_append:
  "next r w = (codes, w1) \<Longrightarrow>
   AuditMiddleware c actionMapping next clk r w =
     snd (append_event c (store_time clk) (submitted_args actionMapping clk r codes) w1)"
  by (simp add: AuditMiddleware_def append_event_def submitted_args_def Let_def)

lemma stored_as_fields [simp]:
  "OrgID (stored_as (now, r)) = OrgID r"
  "Metadata (stored_as (now, r)) = Metadata r"
  by (simp_all add: stored_as_def)

lemma append_event_file:
  assumes "loggerInstance w = Some (FilePtr (Some l))"
    and "files w (filePath l) = File (terminated lns)"
    and "\<forall>ln\<in>set lns. CHR 0x0A \<notin> set ln"
    and "codec_roundtrips c (stored_as (now, r))"
  shows "fst (append_event c now r w) = None"
    and "ReadAuditEvents c tenant s e w =
           Inr (filter (spec_matches tenant s e) (List.map_filter (unmarshal_event c) lns))"
    and "ReadAuditEvents c tenant s e (snd (append_event c now r w)) =
           Inr (filter (spec_matches tenant s e)
                  (List.map_filter (unmarshal_event c) lns @ [stored_as (now, r)]))"
proof -
  let ?js = "line_of c (stored_as (now, r))"
  have js: "marshal_event c (stored_as (now, r)) = Some ?js" "CHR 0x0A \<notin> set ?js"
      "unmarshal_event c ?js = Some (stored_as (now, r))"
    using assms(4) by (simp_all add: line_of_roundtrips)
  have app: "File_append c now l r (files w) =
      (None, (files w)(filePath l := File (terminated (lns @ [?js]))))"
    using File_append_call [of "files w" l "terminated lns" c now r ?js] assms(2) js(1)
    by (simp add: terminated_append)
  then have world: "append_event c now r w =
      (None, w\<lparr>files := (files w)(filePath l := File (terminated (lns @ [?js])))\<rparr>)"
    using assms(1)
    by (simp add: append_event_def CreateAuditEvent_def GetAuditLogger_def File_append_def)
  show "fst (append_event c now r w) = None" using world by simp
  show "ReadAuditEvents c tenant s e w =
           Inr (filter (spec_matches tenant s e) (List.map_filter (unmarshal_event c) lns))"
    using assms(1,2,3)
    by (simp add: ReadAuditEvents_def GetAuditLogger_def File_ReadAuditEvents_parsed
          parsed_events_def file_lines_terminated_only)
  have "file_lines (terminated (lns @ [?js])) = lns @ [?js]"
    using assms(3) js(2) by (intro file_lines_terminated_only) simp
  then show "ReadAuditEvents c tenant s e (snd (append_event c now r w)) =
           Inr (filter (spec_matches tenant s e)
                  (List.map_filter (unmarshal_event c) lns @ [stored_as (now, r)]))"
    using world assms(1) js(3)
    by (simp add: ReadAuditEvents_def GetAuditLogger_def File_ReadAuditEvents_parsed
          parsed_events_def map_filter_append)
qed

lemma append_event_db:
  assumes "loggerInstance w = Some (DBPtr (Some l))"
    and "dbases w (db l) = Table rows"
    and "codec_roundtrips c (stored_as (now, r))"
  shows "fst (append_event c now r w) = None"
    and "ReadAuditEvents c tenant s e w =
           Inr (map (scan_row c) (sort_key col_epoch_timestamp_sec
                  (filter (\<lambda>x. relational_matches tenant s e (scan_row c x)) rows)))"
    and "ReadAuditEvents c tenant s e (snd (append_event c now r w)) =
           Inr (map (scan_row c) (sort_key col_epoch_timestamp_sec
                  (filter (\<lambda>x. relational_matches tenant s e (scan_row c x))
                     (rows @ [row_of (stored_as (now, r)) (metadata_text c (stored_as (now, r)))]))))"
proof -
  let ?row = "row_of (stored_as (now, r)) (metadata_text c (stored_as (now, r)))"
  have "DB_append c now l r (dbases w) = (None, (dbases w)(db l := Table (rows @ [?row])))"
    using DB_append_call [of "dbases w" l rows c now r] assms(2,3) by simp
  then have world: "append_event c now r w =
      (None, w\<lparr>dbases := (dbases w)(db l := Table (rows @ [?row]))\<rparr>)"
    using assms(1)
    by (simp add: append_event_def CreateAuditEvent_def GetAuditLogger_def DB_append_def)
  show "fst (append_event c now r w) = None" using world by simp
  show "ReadAuditEvents c tenant s e w =
           Inr (map (scan_row c) (sort_key col_epoch_timestamp_sec
                  (filter (\<lambda>x. relational_matches tenant s e (scan_row c x)) rows)))"
    using assms(1,2) by (simp add: ReadAuditEvents_def GetAuditLogger_def DB_ReadAuditEvents_rows)
  show "ReadAuditEvents c tenant s e (snd (append_event c now r w)) =
           Inr (map (scan_row c) (sort_key col_epoch_timestamp_sec
                  (filter (\<lambda>x. relational_matches tenant s e (scan_row c x)) (rows @ [?row]))))"
    using world assms(1) by (simp add: ReadAuditEvents_def GetAuditLogger_def DB_ReadAuditEvents_rows)
qed

lemma store_ready_cases:
  assumes "store_ready w"
  obtains (log) l bytes where "loggerInstance w = Some (FilePtr (Some l))"
      "files w (filePath l) = File bytes" "bytes = [] \<or> last bytes = CHR 0x0A"
    | (rel) l rows where "loggerInstance w = Some (DBPtr (Some l))" "dbases w (db l) = Table rows"
proof -
  from assms obtain logger where li: "loggerInstance w = Some logger"
    by (cases "loggerInstance w") (simp_all add: store_ready_def)
  show thesis
  proof (cases logger)
    case (FilePtr p)
    with li assms obtain l where p: "p = Some l"
      by (cases p) (simp_all add: store_ready_def)
    with li FilePtr assms obtain bytes where "files w (filePath l) = File bytes"
        "bytes = [] \<or> last bytes = CHR 0x0A"
      by (cases "files w (filePath l)") (simp_all add: store_ready_def)
    with li FilePtr p show thesis by (intro log) simp_all
  next
    case (DBPtr p)
    with li assms obtain l where p: "p = Some l"
      by (cases p) (simp_all add: store_ready_def)
    with li DBPtr assms obtain rows where "dbases w (db l) = Table rows"
      by (cases "dbases w (db l)") (simp_all add: store_ready_def)
    with li DBPtr p show thesis by (intro rel) simp_all
  qed
qed

lemma append_event_succeeds:
  assumes "store_ready w" and "codec_roundtrips c (stored_as (now, r))"
  shows "fst (append_event c now r w) = None"
  using assms(1)
proof (cases rule: store_ready_cases)
  case (log l bytes)
  from complete_lines_exist [OF log(3)]
  obtain lns where lns: "bytes = terminated lns" "\<forall>ln\<in>set lns. CHR 0x0A \<notin> set ln"
    by (elim exE conjE) blast
  have at: "files w (filePath l) = File (terminated lns)"
    using log(2) lns(1) by simp
  show ?thesis
    by (rule append_event_file(1) [OF log(1) at lns(2) assms(2)])
next
  case (rel l rows)
  show ?thesis
    by (rule append_event_db(1) [OF rel(1) rel(2) assms(2)])
qed

lemma append_event_other_tenant:
  assumes "store_ready w" and "codec_roundtrips c (stored_as (now, r))" and "tenant \<noteq> OrgID r"
  shows "ReadAuditEvents c tenant s e (snd (append_event c now r w)) = ReadAuditEvents c tenant s e w"
  using assms(1)
proof (cases rule: store_ready_cases)
  case (log l bytes)
  from complete_lines_exist [OF log(3)]
  obtain lns where lns: "bytes = terminated lns" "\<forall>ln\<in>set lns. CHR 0x0A \<notin> set ln"
    by (elim exE conjE) blast
  have at: "files w (filePath l) = File (terminated lns)"
    using log(2) lns(1) by simp
  have "\<not> spec_matches tenant s e (stored_as (now, r))"
    using assms(3) by (simp add: spec_matches_def)
  then have "filter (spec_matches tenant s e)
               (List.map_filter (unmarshal_event c) lns @ [stored_as (now, r)]) =
             filter (spec_matches tenant s e) (List.map_filter (unmarshal_event c) lns)"
    by simp
  then show ?thesis
    by (simp only: append_event_file(2,3) [OF log(1) at lns(2) assms(2)])
next
  case (rel l rows)
  let ?row = "row_of (stored_as (now, r)) (metadata_text c (stored_as (now, r)))"
  have "scan_row c ?row = stored_as (now, r)"
    using assms(2) by (rule scan_row_row_of)
  then have "\<not> relational_matches tenant s e (scan_row c ?row)"
    using assms(3) by (simp add: relational_matches_def)
  then have "filter (\<lambda>x. relational_matches tenant s e (scan_row c x)) (rows @ [?row]) =
             filter (\<lambda>x. relational_matches tenant s e (scan_row c x)) rows"
    by simp
  then show ?thesis
    by (simp only: append_event_db(2,3) [OF rel(1) rel(2) assms(2)])
qed

lemma append_event_own_tenant:
  assumes "store_ready w" and "codec_roundtrips c (stored_as (now, r))"
    and "s \<le> EpochTimestampSec (stored_as (now, r))"
    and "e = 0 \<or> EpochTimestampSec (stored_as (now, r)) \<le> e"
  shows "returned (stored_as (now, r)) (ReadAuditEvents c (OrgID r) s e (snd (append_event c now r w)))"
  using assms(1)
proof (cases rule: store_ready_cases)
  case (log l bytes)
  from complete_lines_exist [OF log(3)]
  obtain lns where lns: "bytes = terminated lns" "\<forall>ln\<in>set lns. CHR 0x0A \<notin> set ln"
    by (elim exE conjE) blast
  have at: "files w (filePath l) = File (terminated lns)"
    using log(2) lns(1) by simp
  have "spec_matches (OrgID r) s e (stored_as (now, r))"
    using assms(3,4) by (simp add: spec_matches_def)
  then have "stored_as (now, r) \<in> set (filter (spec_matches (OrgID r) s e)
               (List.map_filter (unmarshal_event c) lns @ [stored_as (now, r)]))"
    by simp
  then show ?thesis
    by (simp only: append_event_file(3) [OF log(1) at lns(2) assms(2)] returned_def sum.case)
next
  case (rel l rows)
  let ?row = "row_of (stored_as (now, r)) (metadata_text c (stored_as (now, r)))"
  have scan: "scan_row c ?row = stored_as (now, r)"
    using assms(2) by (rule scan_row_row_of)
  then have "relational_matches (OrgID r) s e (scan_row c ?row)"
    using assms(3,4) by (auto simp: relational_matches_def)
  then have "?row \<in> set (sort_key col_epoch_timestamp_sec
      (filter (\<lambda>x. relational_matches (OrgID r) s e (scan_row c x)) (rows @ [?row])))"
    by simp
  then have "scan_row c ?row \<in> set (map (scan_row c) (sort_key col_epoch_timestamp_sec
      (filter (\<lambda>x. relational_matches (OrgID r) s e (scan_row c x)) (rows @ [?row]))))"
    by (simp only: set_map) (rule imageI)
  then have "stored_as (now, r) \<in> set (map (scan_row c) (sort_key col_epoch_timestamp_sec
      (filter (\<lambda>x. relational_matches (OrgID r) s e (scan_row c x)) (rows @ [?row]))))"
    by (simp only: scan)
  then show ?thesis
    by (simp only: append_event_db(3) [OF rel(1) rel(2) assms(2)] returned_def sum.case)
qed

lemma no_tenant_zero: "no_tenant ctx \<Longrightarrow> getOrgIDFromContext ctx = 0"
  by (auto simp: no_tenant_def getOrgIDFromContext_def split: option.splits ctx_value.splits)

text \<open>
  C10. A request whose context carries no tenant id is recorded with tenant 0: the
  append the middleware makes on a ready store succeeds, the stored record has tenant 0
  and is returned by a query for tenant 0 whose range contains its time, and for every
  other tenant no query returns it and every query returns what it returned before.
\<close>

theorem tenantless_request_recorded_under_tenant_zero:
  assumes "no_tenant (Ctx r)"
    and "next r w = (codes, w1)"
    and "store_ready w1"
    and "codec_roundtrips c (stored_as (store_time clk, submitted_args actionMapping clk r codes))"
  shows "getOrgIDFromContext (Ctx r) = 0 \<and>
         OrgID (stored_as (store_time clk, submitted_args actionMapping clk r codes)) = 0 \<and>
         fst (append_event c (store_time clk) (submitted_args actionMapping clk r codes) w1) = None \<and>
         (s \<le> EpochTimestampSec (stored_as (store_time clk, submitted_args actionMapping clk r codes)) \<and>
          (e = 0 \<or> EpochTimestampSec (stored_as (store_time clk, submitted_args actionMapping clk r codes)) \<le> e)
          \<longrightarrow> returned (stored_as (store_time clk, submitted_args actionMapping clk r codes))
                (ReadAuditEvents c 0 s e (AuditMiddleware c actionMapping next clk r w))) \<and>
         (tenant \<noteq> 0 \<longrightarrow>
            \<not> returned (stored_as (store_time clk, submitted_args actionMapping clk r codes))
                (ReadAuditEvents c tenant s e (AuditMiddleware c actionMapping next clk r w)) \<and>
            ReadAuditEvents c tenant s e (AuditMiddleware c actionMapping next clk r w) =
              ReadAuditEvents c tenant s e w1)"
proof -
  let ?args = "submitted_args actionMapping clk r codes"
  let ?ev = "stored_as (store_time clk, ?args)"
  let ?w2 = "AuditMiddleware c actionMapping next clk r w"
  have zero: "getOrgIDFromContext (Ctx r) = 0"
    using assms(1) by (rule no_tenant_zero)
  then have org: "OrgID ?args = 0"
    by (simp add: submitted_args_def)
  then have org_ev: "OrgID ?ev = 0" by simp
  have w2: "?w2 = snd (append_event c (store_time clk) ?args w1)"
    using assms(2) by (rule AuditMiddleware_append)
  have ok: "fst (append_event c (store_time clk) ?args w1) = None"
    using assms(3,4) by (rule append_event_succeeds)
  have own: "returned ?ev (ReadAuditEvents c 0 s e ?w2)"
    if "s \<le> EpochTimestampSec ?ev" and "e = 0 \<or> EpochTimestampSec ?ev \<le> e"
    using append_event_own_tenant [OF assms(3,4) that] org w2 by simp
  have same: "ReadAuditEvents c tenant s e ?w2 = ReadAuditEvents c tenant s e w1" if "tenant \<noteq> 0"
    using append_event_other_tenant [OF assms(3,4), of tenant s e] that org w2 by simp
  have absent: "\<not> returned ?ev (ReadAuditEvents c tenant s e ?w2)" if "tenant \<noteq> 0"
    using returned_has_tenant [of ?ev c tenant s e ?w2] that org_ev by auto
  from zero org_ev ok own same absent show ?thesis by blast
qed

lemma guest_roundtrips: "codec_roundtrips guest_codec guest_event"
proof -
  have "Metadata guest_event = Some (audit_metadata guest_request 404 1)"
    by (simp add: guest_event_def submitted_args_def demo_clock_def WriteHeader_def)
  then show ?thesis
    by (simp add: codec_roundtrips_def guest_codec_def)
qed

lemma fmt_d_404: "fmt_d 404 = ''404''"
  by code_simp

lemma guest_fields:
  "EpochTimestampSec guest_event = 700" "Username guest_event = ''guest''"
  "ActionString guest_event = ''GET request to /health''"
  "ExtraMsg guest_event = ''Status: 404, Duration: 1.5ms''"
  by (simp_all add: guest_event_def stored_as_def submitted_args_def demo_clock_def guest_request_def
        getUsernameFromContext_def AuditUserKey_def AuditOrgIDKey_def action_label_def WriteHeader_def
        fmt_d_404)

text \<open>
  An instance of C10: a request whose tenant value has the wrong type, on the file backend.
\<close>

theorem tenantless_request_recorded_under_tenant_zero_witness:
  "getOrgIDFromContext (Ctx guest_request) = 0 \<and> OrgID guest_event = 0 \<and>
   returned guest_event
     (ReadAuditEvents guest_codec 0 700 700
        (AuditMiddleware guest_codec [] not_found demo_clock guest_request running_world)) \<and>
   \<not> returned guest_event
     (ReadAuditEvents guest_codec 123 0 0
        (AuditMiddleware guest_codec [] not_found demo_clock guest_request running_world)) \<and>
   ReadAuditEvents guest_codec 123 0 0
     (AuditMiddleware guest_codec [] not_found demo_clock guest_request running_world) =
   ReadAuditEvents guest_codec 123 0 0 running_world"
proof -
  have a: "no_tenant (Ctx guest_request)"
    by (simp add: no_tenant_def guest_request_def AuditOrgIDKey_def AuditUserKey_def)
  have b: "not_found guest_request running_world = ([404], running_world)"
    by (simp add: not_found_def)
  have c: "store_ready running_world"
    by (simp add: store_ready_def running_world_def fresh_world_def audit_log_def)
  have d: "codec_roundtrips guest_codec
      (stored_as (store_time demo_clock, submitted_args [] demo_clock guest_request [404]))"
    using guest_roundtrips by (simp add: guest_event_def)
  have ts: "(700::int) \<le> EpochTimestampSec guest_event \<and>
      ((700::int) = 0 \<or> EpochTimestampSec guest_event \<le> 700)"
    using guest_fields(1) by simp
  have other: "(123::int) \<noteq> 0" by simp
  note own_range = tenantless_request_recorded_under_tenant_zero
        [of guest_request not_found running_world "[404]" running_world guest_codec demo_clock "[]"
            700 700 123, OF a b c d, folded guest_event_def]
  note any_range = tenantless_request_recorded_under_tenant_zero
        [of guest_request not_found running_world "[404]" running_world guest_codec demo_clock "[]"
            0 0 123, OF a b c d, folded guest_event_def]
  from own_range any_range ts other show ?thesis by blast
qed

end
